theory Spec2Isabelle
  imports Main "HOL-Library.Word" "HOL-Library.Code_Target_Nat"
begin

section \<open>Bytes, machine integers and run-time panics\<close>

text \<open>
  A Go \<^verbatim>\<open>[]byte\<close> and a Go \<^verbatim>\<open>string\<close> are both byte sequences; both are modelled as
  \<^typ>\<open>string\<close> (a list of 8-bit \<^typ>\<open>char\<close>), so the conversions \<^verbatim>\<open>string(data)\<close> and
  \<^verbatim>\<open>[]byte(s)\<close> are the identity.

  The repository's build script compiles the program for \<^verbatim>\<open>GOARCH=amd64\<close> and for
  \<^verbatim>\<open>GOARCH=386\<close>. Go's \<^verbatim>\<open>int\<close> has 64 bits on the first and 32 bits on the second, and
  its arithmetic wraps around; the architecture is therefore a parameter of every function
  that computes with \<^verbatim>\<open>int\<close>.
\<close>

datatype arch = GOARCH_amd64 | GOARCH_386

fun int_bits :: "arch \<Rightarrow> nat" where
  "int_bits GOARCH_amd64 = 64"
| "int_bits GOARCH_386 = 32"

definition wrap_int :: "arch \<Rightarrow> int \<Rightarrow> int" where
  "wrap_int a x = (x + 2 ^ (int_bits a - 1)) mod 2 ^ int_bits a - 2 ^ (int_bits a - 1)"


text \<open>The conversion \<^verbatim>\<open>int(v)\<close> of a \<^verbatim>\<open>uint32\<close>: value-preserving on 64 bits, a
  reinterpretation as two's complement on 32 bits.\<close>

fun int_of_uint32 :: "arch \<Rightarrow> 32 word \<Rightarrow> int" where
  "int_of_uint32 GOARCH_amd64 v = uint v"
| "int_of_uint32 GOARCH_386 v = sint v"

text \<open>The only run-time failure of the engine is a panic (slice bounds out of range).\<close>

datatype error = Panic

definition ebind :: "error + 'a \<Rightarrow> ('a \<Rightarrow> error + 'b) \<Rightarrow> error + 'b" where
  "ebind m f = (case m of Inl e \<Rightarrow> Inl e | Inr x \<Rightarrow> f x)"

text \<open>The slice expression \<^verbatim>\<open>s[lo:hi]\<close>, which panics unless \<open>0 \<le> lo \<le> hi \<le> len(s)\<close>.\<close>

definition slice :: "string \<Rightarrow> int \<Rightarrow> int \<Rightarrow> error + string" where
  "slice s lo hi =
     (if 0 \<le> lo \<and> lo \<le> hi \<and> hi \<le> int (length s)
      then Inr (take (nat (hi - lo)) (drop (nat lo) s))
      else Inl Panic)"

text \<open>\<^verbatim>\<open>binary.LittleEndian.Uint16\<close> and \<^verbatim>\<open>Uint32\<close> read the first bytes of a slice and
  panic on a slice that is too short.\<close>

fun Uint16 :: "string \<Rightarrow> error + 16 word" where
  "Uint16 (b0 # b1 # _) = Inr (word_of_nat (of_char b0 + 256 * of_char b1))"
| "Uint16 _ = Inl Panic"

fun Uint32 :: "string \<Rightarrow> error + 32 word" where
  "Uint32 (b0 # b1 # b2 # b3 # _) =
     Inr (word_of_nat (of_char b0 + 256 * of_char b1 + 65536 * of_char b2
                       + 16777216 * of_char b3))"
| "Uint32 _ = Inl Panic"

section \<open>Format validator\<close>

definition PE_SIGNATURE :: "32 word" where
  "PE_SIGNATURE = 0x00004550"

definition DOS_SIGNATURE :: "16 word" where
  "DOS_SIGNATURE = 0x5A4D"

definition isValidPEFile :: "arch \<Rightarrow> string \<Rightarrow> error + bool" where
  "isValidPEFile a data =
     (if length data < 2 then Inr False
      else ebind (ebind (slice data 0 2) Uint16) (\<lambda>sig.
        if sig \<noteq> DOS_SIGNATURE then Inr False
        else if length data < 0x40 then Inr False
        else ebind (ebind (slice data 0x3C 0x40) Uint32) (\<lambda>v.
          let peOffset = int_of_uint32 a v in
          if \<not> wrap_int a (peOffset + 4) \<le> int (length data) then Inr False
          else ebind (ebind (slice data peOffset (wrap_int a (peOffset + 4))) Uint32)
                 (\<lambda>sig2. Inr (sig2 = PE_SIGNATURE)))))"

text \<open>The validation as the specification words it: at least 64 bytes, the 2-byte
  little-endian signature \<open>0x5A4D\<close> in front, and the 4-byte little-endian pointer \<open>p\<close> at
  \<open>0x3C\<close> with \<open>p + 4 \<le> len\<close> and the signature \<open>0x00004550\<close> at \<open>p\<close>.\<close>

definition le_nat :: "string \<Rightarrow> nat" where
  "le_nat bs = foldr (\<lambda>b n. of_char b + 256 * n) bs 0"

definition spec_valid_format :: "string \<Rightarrow> bool" where
  "spec_valid_format data =
     (64 \<le> length data \<and> le_nat (take 2 data) = 0x5A4D \<and>
      (let p = le_nat (take 4 (drop 0x3C data))
       in p + 4 \<le> length data \<and> le_nat (take 4 (drop p data)) = 0x4550))"

section \<open>Runes of a string\<close>

text \<open>
  \<^verbatim>\<open>for _, ch := range str\<close> decodes the string as UTF-8, one rune at a time; a byte that
  does not start a well-formed encoding yields the rune \<open>U+FFFD\<close> and is one byte wide.
  \<open>DecodeRune\<close> returns the rune and its width, as \<^verbatim>\<open>utf8.DecodeRuneInString\<close> does.
\<close>

definition RuneError :: nat where
  "RuneError = 0xFFFD"

fun DecodeRune :: "string \<Rightarrow> nat \<times> nat" where
  "DecodeRune [] = (RuneError, 0)"
| "DecodeRune (c0 # cs) =
     (let s0 = (of_char c0 :: nat) in
      if s0 < 0x80 then (s0, 1)
      else if s0 < 0xC2 \<or> 0xF4 < s0 then (RuneError, 1)
      else
        let sz = (if s0 < 0xE0 then 2 else if s0 < 0xF0 then 3 else 4 :: nat);
            lo = (if s0 = 0xE0 then 0xA0 else if s0 = 0xF0 then 0x90 else 0x80 :: nat);
            hi = (if s0 = 0xED then 0x9F else if s0 = 0xF4 then 0x8F else 0xBF :: nat)
        in
        if length cs + 1 < sz then (RuneError, 1)
        else
          let s1 = (of_char (cs ! 0) :: nat) in
          if s1 < lo \<or> hi < s1 then (RuneError, 1)
          else if sz \<le> 2 then ((s0 mod 32) * 64 + s1 mod 64, 2)
          else
            let s2 = (of_char (cs ! 1) :: nat) in
            if s2 < 0x80 \<or> 0xBF < s2 then (RuneError, 1)
            else if sz \<le> 3 then ((s0 mod 16) * 4096 + (s1 mod 64) * 64 + s2 mod 64, 3)
            else
              let s3 = (of_char (cs ! 2) :: nat) in
              if s3 < 0x80 \<or> 0xBF < s3 then (RuneError, 1)
              else ((s0 mod 8) * 262144 + (s1 mod 64) * 4096 + (s2 mod 64) * 64
                    + s3 mod 64, 4))"

text \<open>A rune is kept with the bytes that encode it.\<close>

type_synonym rune = "nat \<times> string"

fun runes :: "string \<Rightarrow> rune list" where
  "runes [] = []"
| "runes (c # cs) =
     (let w = snd (DecodeRune (c # cs))
      in (fst (DecodeRune (c # cs)), c # take (w - 1) cs) # runes (drop (w - 1) cs))"

section \<open>Garbage filter of the string extractor\<close>

definition hasRepeatingPattern :: "string \<Rightarrow> bool" where
  "hasRepeatingPattern str =
     (if length str < 20 then False
      else list_ex (\<lambda>i. str ! i = str ! (i + 1) \<and> str ! i = str ! (i + 2)
                         \<and> str ! i = str ! (i + 3)) [0..<length str - 10])"

definition specialChar :: "nat \<Rightarrow> bool" where
  "specialChar ch = ((ch < 32 \<or> ch > 126) \<and> ch \<noteq> 32 \<and> ch \<noteq> 9 \<and> ch \<noteq> 10)"

definition specialCharCount :: "string \<Rightarrow> nat" where
  "specialCharCount str = length (filter (\<lambda>r. specialChar (fst r)) (runes str))"

text \<open>
  The source compares \<^verbatim>\<open>float64(specialCharCount)/float64(len(str)) > 0.3\<close>. The quotient of
  two integers below \<open>2^53\<close> is rounded correctly and rounding is monotone, so the quotient
  exceeds the double nearest to \<open>0.3\<close> exactly when \<open>10 * count > 3 * len\<close>, for every length
  a string in memory can have. The comparison is modelled in exact arithmetic.
\<close>

definition isLikelyGarbage :: "string \<Rightarrow> bool" where
  "isLikelyGarbage str =
     (if length str < 10 then False
      else if 10 * specialCharCount str > 3 * length str then True
      else if hasRepeatingPattern str then True
      else False)"

text \<open>The classification as the specification words it: length at least 10 and either
  more than three tenths of the characters outside \<open>[32,126] \<union> {tab, LF, CR}\<close>, or four
  identical consecutive characters somewhere past position 10.\<close>

definition spec_outside :: "nat \<Rightarrow> bool" where
  "spec_outside ch = (\<not> (32 \<le> ch \<and> ch \<le> 126) \<and> ch \<noteq> 9 \<and> ch \<noteq> 10 \<and> ch \<noteq> 13)"

definition run4_at :: "string \<Rightarrow> nat \<Rightarrow> bool" where
  "run4_at str i = (i + 3 < length str \<and> str ! i = str ! (i + 1)
                    \<and> str ! i = str ! (i + 2) \<and> str ! i = str ! (i + 3))"

definition spec_likely_garbage :: "string \<Rightarrow> bool" where
  "spec_likely_garbage str =
     (10 \<le> length str \<and>
      (10 * length (filter (\<lambda>r. spec_outside (fst r)) (runes str)) > 3 * length str
       \<or> list_ex (run4_at str) [10..<length str]))"

definition printable :: "char \<Rightarrow> bool" where
  "printable b = (32 \<le> (of_char b :: nat) \<and> (of_char b :: nat) \<le> 126)"

section \<open>Strings\<close>

text \<open>Source literals outside ASCII are written by their code points and encoded as
  UTF-8, the encoding of Go source text.\<close>

definition encode_rune :: "nat \<Rightarrow> string" where
  "encode_rune c =
     (if c < 0x80 then [char_of c]
      else if c < 0x800 then [char_of (0xC0 + c div 64), char_of (0x80 + c mod 64)]
      else if c < 0x10000 then
        [char_of (0xE0 + c div 4096), char_of (0x80 + c div 64 mod 64),
         char_of (0x80 + c mod 64)]
      else
        [char_of (0xF0 + c div 262144), char_of (0x80 + c div 4096 mod 64),
         char_of (0x80 + c div 64 mod 64), char_of (0x80 + c mod 64)])"

definition utf8 :: "nat list \<Rightarrow> string" where
  "utf8 cs = concat (map encode_rune cs)"

text \<open>\<^verbatim>\<open>strings.Index\<close>: the first index at which \<open>sub\<close> occurs, or \<open>-1\<close>.\<close>

primrec Index_from :: "string \<Rightarrow> string \<Rightarrow> nat \<Rightarrow> int" where
  "Index_from [] sub i = (if sub = [] then int i else - 1)"
| "Index_from (c # cs) sub i =
     (if take (length sub) (c # cs) = sub then int i else Index_from cs sub (Suc i))"

definition Index :: "string \<Rightarrow> string \<Rightarrow> int" where
  "Index s sub = Index_from s sub 0"

definition Contains :: "string \<Rightarrow> string \<Rightarrow> bool" where
  "Contains s sub = (Index s sub \<ge> 0)"

section \<open>Regular expressions\<close>

datatype cclass = CClass bool "(nat \<times> nat) list"

fun in_ranges :: "(nat \<times> nat) list \<Rightarrow> nat \<Rightarrow> bool" where
  "in_ranges [] c = False"
| "in_ranges ((lo, hi) # rs) c = ((lo \<le> c \<and> c \<le> hi) \<or> in_ranges rs c)"

fun cmatch :: "cclass \<Rightarrow> nat \<Rightarrow> bool" where
  "cmatch (CClass neg rs) c = (in_ranges rs c \<noteq> neg)"

datatype regex =
    Eps
  | Cls cclass
  | Rep cclass nat "nat option"
  | Cat regex regex
  | Or regex regex
  | Grp nat regex
  | Opt regex
  | WordB
  | Bol
  | Eol

type_synonym mstate = "nat option \<times> rune list \<times> (nat \<times> string) list"

definition is_word :: "nat option \<Rightarrow> bool" where
  "is_word p = (case p of None \<Rightarrow> False
     | Some c \<Rightarrow> (48 \<le> c \<and> c \<le> 57) \<or> (65 \<le> c \<and> c \<le> 90) \<or> c = 95 \<or> (97 \<le> c \<and> c \<le> 122))"

definition text_of :: "rune list \<Rightarrow> string" where
  "text_of rs = concat (map snd rs)"

fun rmatch :: "regex \<Rightarrow> mstate \<Rightarrow> mstate list" where
  "rmatch Eps st = [st]"
| "rmatch (Cls c) (p, rs, caps) =
     (case rs of [] \<Rightarrow> []
      | r # rs' \<Rightarrow> if cmatch c (fst r) then [(Some (fst r), rs', caps)] else [])"
| "rmatch (Rep c lo hi) (p, rs, caps) =
     (let n = length (takeWhile (\<lambda>r. cmatch c (fst r)) rs);
          m = (case hi of None \<Rightarrow> n | Some h \<Rightarrow> min n h)
      in map (\<lambda>k. (if k = 0 then p else Some (fst (rs ! (k - 1))), drop k rs, caps))
           (rev [lo..<Suc m]))"
| "rmatch (Cat x y) st = concat (map (rmatch y) (rmatch x st))"
| "rmatch (Or x y) st = rmatch x st @ rmatch y st"
| "rmatch (Grp g x) (p, rs, caps) =
     map (\<lambda>(p', rs', caps'). (p', rs', (g, text_of (take (length rs - length rs') rs)) # caps'))
       (rmatch x (p, rs, caps))"
| "rmatch (Opt x) st = rmatch x st @ [st]"
| "rmatch WordB (p, rs, caps) =
     (if is_word p \<noteq> is_word (case rs of [] \<Rightarrow> None | r # _ \<Rightarrow> Some (fst r))
      then [(p, rs, caps)] else [])"
| "rmatch Bol (p, rs, caps) = (if p = None then [(p, rs, caps)] else [])"
| "rmatch Eol (p, rs, caps) = (if rs = [] then [(p, rs, caps)] else [])"

fun ngroups :: "regex \<Rightarrow> nat" where
  "ngroups (Cat x y) = max (ngroups x) (ngroups y)"
| "ngroups (Or x y) = max (ngroups x) (ngroups y)"
| "ngroups (Grp g x) = max g (ngroups x)"
| "ngroups (Opt x) = ngroups x"
| "ngroups _ = 0"

function find_all ::
  "regex \<Rightarrow> nat option \<Rightarrow> rune list \<Rightarrow> nat \<Rightarrow> nat option \<Rightarrow> (nat \<times> nat \<times> (nat \<times> string) list) list"
where
  "find_all re p rs pos prevEnd =
     (case rmatch re (p, rs, []) of
        [] \<Rightarrow>
          (case rs of [] \<Rightarrow> []
           | r # rs' \<Rightarrow> find_all re (Some (fst r)) rs' (pos + length (snd r)) prevEnd)
      | (p', rs', caps) # _ \<Rightarrow>
          if length rs' < length rs then
            (let e = pos + length (text_of (take (length rs - length rs') rs))
             in (pos, e, caps) # find_all re p' rs' e (Some e))
          else
            (if prevEnd = Some pos then [] else [(pos, pos, caps)]) @
            (case rs of [] \<Rightarrow> []
             | r # rs'' \<Rightarrow> find_all re (Some (fst r)) rs'' (pos + length (snd r)) (Some pos)))"
  by pat_completeness auto
termination
  by (relation "measure (\<lambda>(re, p, rs, pos, prevEnd). length rs)") auto

declare find_all.simps [simp del]

definition FindAllIndex :: "regex \<Rightarrow> string \<Rightarrow> (nat \<times> nat) list" where
  "FindAllIndex re b = map (\<lambda>(s, e, caps). (s, e)) (find_all re None (runes b) 0 None)"

definition FindAllStringSubmatch :: "regex \<Rightarrow> string \<Rightarrow> string list list" where
  "FindAllStringSubmatch re str =
     map (\<lambda>(s, e, caps).
            take (e - s) (drop s str) #
            map (\<lambda>g. case map_of caps g of None \<Rightarrow> [] | Some t \<Rightarrow> t) [1..<Suc (ngroups re)])
       (find_all re None (runes str) 0 None)"

fun search :: "regex \<Rightarrow> nat option \<Rightarrow> rune list \<Rightarrow> bool" where
  "search re p [] = (rmatch re (p, [], []) \<noteq> [])"
| "search re p (r # rs) = (rmatch re (p, r # rs, []) \<noteq> [] \<or> search re (Some (fst r)) rs)"

definition MatchString :: "regex \<Rightarrow> string \<Rightarrow> bool" where
  "MatchString re str = search re None (runes str)"

text \<open>Building blocks of the patterns.\<close>

definition ch :: "char \<Rightarrow> nat \<times> nat" where
  "ch c = (of_char c, of_char c)"

definition rg :: "char \<Rightarrow> char \<Rightarrow> nat \<times> nat" where
  "rg c d = (of_char c, of_char d)"

definition cat :: "regex list \<Rightarrow> regex" where
  "cat xs = foldr Cat xs Eps"

definition litr :: "nat list \<Rightarrow> regex" where
  "litr cs = cat (map (\<lambda>c. Cls (CClass False [(c, c)])) cs)"

definition lit :: "string \<Rightarrow> regex" where
  "lit s = litr (map of_char s)"

definition fold_ranges :: "char \<Rightarrow> (nat \<times> nat) list" where
  "fold_ranges c =
     (let n = (of_char c :: nat);
          l = (if 65 \<le> n \<and> n \<le> 90 then n + 32 else n);
          u = (if 97 \<le> n \<and> n \<le> 122 then n - 32 else n)
      in if l = u then [(n, n)]
         else [(u, u), (l, l)] @
              (if l = 107 then [(0x212A, 0x212A)] else if l = 115 then [(0x17F, 0x17F)] else []))"

definition liti :: "string \<Rightarrow> regex" where
  "liti s = cat (map (\<lambda>c. Cls (CClass False (fold_ranges c))) s)"

definition alnum :: "(nat \<times> nat) list" where
  "alnum = [rg CHR ''a'' CHR ''z'', rg CHR ''A'' CHR ''Z'', rg CHR ''0'' CHR ''9'']"

definition word_cls :: "(nat \<times> nat) list" where
  "word_cls = [rg CHR ''0'' CHR ''9'', rg CHR ''A'' CHR ''Z'', ch CHR ''_'', rg CHR ''a'' CHR ''z'']"

definition space_cls :: "(nat \<times> nat) list" where
  "space_cls = [(9, 10), (12, 13), (32, 32)]"

definition digit_cls :: "(nat \<times> nat) list" where
  "digit_cls = [rg CHR ''0'' CHR ''9'']"

definition letter_cls :: "(nat \<times> nat) list" where
  "letter_cls = [rg CHR ''a'' CHR ''z'', rg CHR ''A'' CHR ''Z'']"

section \<open>Credential-validity check\<close>

definition validPatterns :: "regex list" where
  "validPatterns =
    [cat [Bol, Rep (CClass False (alnum @ map ch ''!@#$%^&*()_'' @ [rg CHR ''+'' CHR ''=''])) 4 (Some 50), Eol],
     cat [Bol, Rep (CClass False (alnum @ map ch ''._%+-'')) 1 None, lit ''@'',
          Rep (CClass False (alnum @ map ch ''.-'')) 1 None, lit ''.'',
          Rep (CClass False letter_cls) 2 None, Eol],
     cat [Bol, Rep (CClass False digit_cls) 1 None, lit ''.'', Rep (CClass False digit_cls) 1 None,
          lit ''.'', Rep (CClass False digit_cls) 1 None, lit ''.'',
          Rep (CClass False digit_cls) 1 None, Eol],
     cat [Bol, Rep (CClass False alnum) 20 (Some 60), Eol],
     cat [Bol, Cls (CClass False letter_cls), Rep (CClass False alnum) 3 (Some 20), Eol],
     cat [Bol, Rep (CClass False letter_cls) 1 None, lit ''://''],
     cat [Bol, lit ''jdbc:'', Rep (CClass False word_cls) 1 None, lit ''://'']]"

definition hasCredentialLikePattern :: "string \<Rightarrow> bool" where
  "hasCredentialLikePattern str = list_ex (\<lambda>pattern. MatchString pattern str) validPatterns"

definition excluded :: "string list" where
  "excluded =
    [''true'', ''false'', ''null'', ''void'', ''main'', ''class'', ''string'', ''int'', ''bool'',
     ''=='', ''!='', ''=<'', ''=>'', ''= '', '' ='', ''=p='', ''=6'', ''=N'', ''=L'', ''=W'', ''=f'', ''=C'',
     ''GET'', ''POST'', ''HTTP'', ''Content'', ''Type'', ''Length'', ''Version'', ''Microsoft'',
     ''System'', ''Windows'', ''Assembly'', ''PublicKey'', ''Culture'', ''Token'']"

definition isValidCredential :: "string \<Rightarrow> bool" where
  "isValidCredential str =
     (if length str < 3 then False
      else if list_ex (\<lambda>exclude. Contains str exclude) excluded then False
      else hasCredentialLikePattern str)"

section \<open>String extractor\<close>

text \<open>
  \<^verbatim>\<open>strings.ToLower\<close> maps every rune to its lower case and re-encodes the result; a byte
  that is no well-formed UTF-8 comes out as the three bytes of \<open>U+FFFD\<close>. The letters \<open>A\<close>
  to \<open>Z\<close> go to \<open>a\<close> to \<open>z\<close>, and two runes outside ASCII have an ASCII lower case:
  \<open>U+0130\<close> goes to \<open>i\<close> and \<open>U+212A\<close> to \<open>k\<close>. Every other rune outside ASCII
  is kept here as it is: its lower case in Go's tables is a rune outside ASCII again, and
  the only runes outside ASCII in the keywords of \<open>isMeaningfulString\<close> are CJK characters,
  which are the lower case of no other rune. The containment tests of
  \<open>isMeaningfulString\<close>, the only use of \<open>ToLower\<close>, therefore have the value they have in
  the source.
\<close>

definition lower_rune :: "rune \<Rightarrow> string" where
  "lower_rune r =
     (let c = fst r in
      if 65 \<le> c \<and> c \<le> 90 then [char_of (c + 32)]
      else if c = 0x130 then ''i''
      else if c = 0x212A then ''k''
      else if c = RuneError then encode_rune RuneError
      else snd r)"

definition ToLower :: "string \<Rightarrow> string" where
  "ToLower s = concat (map lower_rune (runes s))"

definition meaningful_keywords :: "string list" where
  "meaningful_keywords =
    [''password'', ''user'', ''jdbc'', ''ssh'', ''ldap'', ''mysql'', ''sk-'',
     utf8 [0x8D26, 0x53F7], utf8 [0x5BC6, 0x7801], ''Connection'', ''Database'', ''Server'',
     ''Host'', ''Token'', ''Key'', ''Secret'', ''Auth'', ''Login'', ''credential'',
     ''connect'', ''config'', ''setting'', ''account'', ''passwd'']"

definition isMeaningfulString :: "string \<Rightarrow> bool" where
  "isMeaningfulString str =
     (if length str > 500 \<or> length str < 8 then False
      else if isLikelyGarbage str then False
      else if list_ex (\<lambda>keyword. Contains (ToLower str) (ToLower keyword)) meaningful_keywords
        then True
      else if Contains str ''://'' \<or> Contains str ''Data Source''
              \<or> Contains str ''Initial Catalog'' \<or> Contains str ''User ID'' then True
      else False)"

text \<open>The loop over 16-bit little-endian code units; the state is the current run and
  the results so far. A run holds only units in \<open>[32,126]\<close>, which \<^verbatim>\<open>utf16.Decode\<close> and the
  conversion to a string turn into the bytes of the same value.\<close>

definition utf16_string :: "16 word list \<Rightarrow> string" where
  "utf16_string us = map (\<lambda>u. char_of (unat u)) us"

fun utf16_loop :: "string \<Rightarrow> 16 word list \<Rightarrow> string list \<Rightarrow> 16 word list \<times> string list" where
  "utf16_loop (b0 # b1 # bs) currentString results =
     (let char = (word_of_nat (of_char b0 + 256 * of_char b1) :: 16 word) in
      if char \<ge> 32 \<and> char \<le> 126 then utf16_loop bs (currentString @ [char]) results
      else if length currentString \<ge> 8 \<and> isMeaningfulString (utf16_string currentString)
        then utf16_loop bs [] (results @ [utf16_string currentString])
      else utf16_loop bs [] results)"
| "utf16_loop bs currentString results = (currentString, results)"

definition extractUTF16Strings :: "string \<Rightarrow> string list" where
  "extractUTF16Strings data =
     (case utf16_loop data [] [] of (currentString, results) \<Rightarrow>
        if length currentString \<ge> 8 \<and> isMeaningfulString (utf16_string currentString)
        then results @ [utf16_string currentString] else results)"

text \<open>The loop over single bytes; the state is the current run, the set of strings seen
  and the results so far.\<close>

fun ascii_loop ::
  "string \<Rightarrow> string \<Rightarrow> string set \<Rightarrow> string list \<Rightarrow> string \<times> string set \<times> string list"
where
  "ascii_loop [] current stringSet results = (current, stringSet, results)"
| "ascii_loop (b # bs) current stringSet results =
     (if printable b then ascii_loop bs (current @ [b]) stringSet results
      else if length current \<ge> 8 \<and> current \<notin> stringSet \<and> isMeaningfulString current
        then ascii_loop bs [] (insert current stringSet) (results @ [current])
      else ascii_loop bs [] stringSet results)"

fun utf16_merge :: "string list \<Rightarrow> string set \<Rightarrow> string list \<Rightarrow> string list" where
  "utf16_merge [] stringSet results = results"
| "utf16_merge (str # strs) stringSet results =
     (if str \<notin> stringSet \<and> isMeaningfulString str
      then utf16_merge strs (insert str stringSet) (results @ [str])
      else utf16_merge strs stringSet results)"

definition extractMeaningfulStrings :: "string \<Rightarrow> string list" where
  "extractMeaningfulStrings data =
     (case ascii_loop data [] {} [] of (current, stringSet, results) \<Rightarrow>
        utf16_merge (extractUTF16Strings data) stringSet
          (if length current \<ge> 8 \<and> current \<notin> stringSet \<and> isMeaningfulString current
           then results @ [current] else results))"

section \<open>Offset and context resolver\<close>

definition findStringOffset :: "string \<Rightarrow> string \<Rightarrow> int" where
  "findStringOffset data str = Index data str"

text \<open>The literal returned for an unresolved offset: four CJK characters, twelve bytes of
  UTF-8, meaning "cannot locate".\<close>

definition unlocatable :: string where
  "unlocatable = utf8 [0x65E0, 0x6CD5, 0x5B9A, 0x4F4D]"

definition getStringContext :: "arch \<Rightarrow> string \<Rightarrow> int \<Rightarrow> int \<Rightarrow> error + string" where
  "getStringContext a data offset contextLen =
     (if offset = - 1 then Inr unlocatable
      else
        let start = max 0 (wrap_int a (offset - contextLen));
            end = min (int (length data)) (wrap_int a (offset + contextLen))
        in ebind (slice data start end) (\<lambda>contextBytes.
             Inr (map (\<lambda>b. if printable b then b else CHR ''.'') contextBytes)))"

text \<open>Go's integer division truncates towards zero.\<close>

definition go_div :: "int \<Rightarrow> int \<Rightarrow> int" where
  "go_div x y = sgn x * sgn y * (\<bar>x\<bar> div \<bar>y\<bar>)"

definition truncateForContext :: "arch \<Rightarrow> string \<Rightarrow> int \<Rightarrow> error + string" where
  "truncateForContext a s maxLen =
     (if int (length s) \<le> maxLen then Inr s
      else
        let half = go_div maxLen 2 in
        ebind (slice s 0 half) (\<lambda>front.
        ebind (slice s (wrap_int a (int (length s) - half)) (int (length s))) (\<lambda>back.
          Inr (front @ ''...'' @ back))))"

section \<open>Rule corpus and matcher\<close>

record DetectionRule =
  Name :: string
  Pattern :: regex
  Description :: string
  RiskLevel :: string

record BinaryParser =
  rules :: "DetectionRule list"

record BinaryMatchResult =
  RuleName :: string
  RuleDesc :: string
  Risk :: string
  MatchedValue :: string
  Offset :: int
  Context :: string

text \<open>\<open>Risk\<close> is the field \<^verbatim>\<open>RiskLevel\<close> of \<^verbatim>\<open>BinaryMatchResult\<close>; the name \<open>RiskLevel\<close>
  is taken by the field of the rule.\<close>

text \<open>A loop that appends the results of each round, any of which may panic.\<close>

fun econcat_map :: "('a \<Rightarrow> error + 'b list) \<Rightarrow> 'a list \<Rightarrow> error + 'b list" where
  "econcat_map f [] = Inr []"
| "econcat_map f (x # xs) =
     ebind (f x) (\<lambda>ys. ebind (econcat_map f xs) (\<lambda>zs. Inr (ys @ zs)))"

text \<open>The body of the inner loop of \<^verbatim>\<open>checkStringWithRulesEx\<close>, for one match of one rule.\<close>

definition resolveOffset :: "string \<Rightarrow> string \<Rightarrow> string \<Rightarrow> string \<Rightarrow> int" where
  "resolveOffset data whole matchedValue str =
     (let offset = findStringOffset data whole;
          offset = (if offset = - 1 then findStringOffset data matchedValue else offset);
          offset = (if offset = - 1 then findStringOffset data str else offset)
      in if offset = - 1 \<and> length matchedValue > 10
         then findStringOffset data (take 10 matchedValue) else offset)"

definition checkMatchEx ::
  "arch \<Rightarrow> DetectionRule \<Rightarrow> string \<Rightarrow> string \<Rightarrow> int \<Rightarrow> string list
   \<Rightarrow> error + BinaryMatchResult list"
where
  "checkMatchEx a rule str data contextLen match =
     (if length match > 1 then
        let matchedValue = (if length match > 2 then match ! 2 else match ! 1) in
        if isValidCredential matchedValue then
          let offset = resolveOffset data (match ! 0) matchedValue str in
          ebind (getStringContext a data offset contextLen) (\<lambda>context.
          ebind (if offset = - 1 \<and> context = unlocatable
                 then truncateForContext a str contextLen else Inr context) (\<lambda>context.
            Inr [\<lparr>RuleName = Name rule, RuleDesc = Description rule, Risk = RiskLevel rule,
                  MatchedValue = matchedValue, Offset = offset, Context = context\<rparr>]))
        else Inr []
      else Inr [])"

definition checkStringWithRulesEx ::
  "arch \<Rightarrow> BinaryParser \<Rightarrow> string \<Rightarrow> string \<Rightarrow> int \<Rightarrow> error + BinaryMatchResult list"
where
  "checkStringWithRulesEx a p str data contextLen =
     econcat_map (\<lambda>rule.
         econcat_map (checkMatchEx a rule str data contextLen)
           (FindAllStringSubmatch (Pattern rule) str))
       (rules p)"

section \<open>Base64 layer\<close>

definition base64_cls :: "(nat \<times> nat) list" where
  "base64_cls = [rg CHR ''A'' CHR ''Z'', rg CHR ''a'' CHR ''z'', rg CHR ''0'' CHR ''9'',
                 ch CHR ''+'', ch CHR ''/'']"

definition base64Pattern :: regex where
  "base64Pattern = cat [Rep (CClass False base64_cls) 40 None,
                        Rep (CClass False [ch CHR ''='']) 0 (Some 2)]"

text \<open>\<^verbatim>\<open>base64.StdEncoding.DecodeString\<close>: the standard alphabet with padding, carriage
  returns and line feeds ignored, the unused bits of the last quantum not checked. The
  result is \<open>None\<close> where the source gets an error.\<close>

definition decodeMap :: "char \<Rightarrow> nat option" where
  "decodeMap c =
     (let n = (of_char c :: nat) in
      if 65 \<le> n \<and> n \<le> 90 then Some (n - 65)
      else if 97 \<le> n \<and> n \<le> 122 then Some (n - 71)
      else if 48 \<le> n \<and> n \<le> 57 then Some (n + 4)
      else if n = 43 then Some 62
      else if n = 47 then Some 63
      else None)"

definition quantum :: "nat \<Rightarrow> nat \<Rightarrow> nat \<Rightarrow> nat \<Rightarrow> string" where
  "quantum v0 v1 v2 v3 =
     (let val = v0 * 262144 + v1 * 4096 + v2 * 64 + v3
      in [char_of (val div 65536), char_of (val div 256 mod 256), char_of (val mod 256)])"

fun decode_quanta :: "string \<Rightarrow> string option" where
  "decode_quanta [] = Some []"
| "decode_quanta [c0, c1, c2, c3] =
     (case (decodeMap c0, decodeMap c1) of
        (Some v0, Some v1) \<Rightarrow>
          (case decodeMap c2 of
             Some v2 \<Rightarrow>
               (case decodeMap c3 of
                  Some v3 \<Rightarrow> Some (quantum v0 v1 v2 v3)
                | None \<Rightarrow> if c3 = CHR ''='' then Some (take 2 (quantum v0 v1 v2 0)) else None)
           | None \<Rightarrow>
               if c2 = CHR ''='' \<and> c3 = CHR ''='' then Some (take 1 (quantum v0 v1 0 0))
               else None)
      | _ \<Rightarrow> None)"
| "decode_quanta (c0 # c1 # c2 # c3 # rest) =
     (case (decodeMap c0, decodeMap c1, decodeMap c2, decodeMap c3) of
        (Some v0, Some v1, Some v2, Some v3) \<Rightarrow>
          (case decode_quanta rest of None \<Rightarrow> None
           | Some bs \<Rightarrow> Some (quantum v0 v1 v2 v3 @ bs))
      | _ \<Rightarrow> None)"
| "decode_quanta _ = None"

definition DecodeString :: "string \<Rightarrow> string option" where
  "DecodeString s = decode_quanta (filter (\<lambda>c. c \<noteq> CHR 0x0D \<and> c \<noteq> CHR 0x0A) s)"

text \<open>\<^verbatim>\<open>float64(printable)/float64(len(data)) > 0.7\<close>, in exact arithmetic as for the
  garbage filter; for the empty slice the source compares a NaN and answers false.\<close>

definition isText :: "string \<Rightarrow> bool" where
  "isText data =
     (10 * length (filter (\<lambda>b. printable b \<or> b = CHR 0x0A \<or> b = CHR 0x0D \<or> b = CHR 0x09) data)
        > 7 * length data)"

definition base64_suffix :: string where
  "base64_suffix = '' (Base64'' @ utf8 [0x7F16, 0x7801] @ '')''"

definition base64_desc_suffix :: string where
  "base64_desc_suffix = '' - Base64'' @ utf8 [0x7F16, 0x7801, 0x7248, 0x672C]"

text \<open>The body of the innermost loop of \<^verbatim>\<open>checkBase64EncodedEx\<close>, for one match of one
  rule in the decoded text of the run that starts at \<open>start\<close>.\<close>

definition checkBase64MatchEx ::
  "arch \<Rightarrow> string \<Rightarrow> int \<Rightarrow> nat \<Rightarrow> string \<Rightarrow> string \<Rightarrow> DetectionRule \<Rightarrow> string list
   \<Rightarrow> error + BinaryMatchResult list"
where
  "checkBase64MatchEx a data contextLen start base64Str decodedStr rule ruleMatch =
     (if length ruleMatch < 2 then Inr []
      else
        let matchedValue = (if length ruleMatch > 2 then ruleMatch ! 2 else ruleMatch ! 1) in
        if \<not> isValidCredential matchedValue then Inr []
        else
          ebind (getStringContext a data (int start) contextLen) (\<lambda>context.
          ebind (if context = unlocatable
                 then ebind (truncateForContext a base64Str (go_div contextLen 2)) (\<lambda>t1.
                      ebind (truncateForContext a decodedStr (go_div contextLen 2)) (\<lambda>t2.
                        Inr (''Base64: '' @ t1 @ '' -> '' @ t2)))
                 else Inr context) (\<lambda>context.
            Inr [\<lparr>RuleName = Name rule @ base64_suffix,
                  RuleDesc = Description rule @ base64_desc_suffix,
                  Risk = RiskLevel rule, MatchedValue = matchedValue,
                  Offset = int start, Context = context\<rparr>])))"

definition checkBase64RunEx ::
  "arch \<Rightarrow> BinaryParser \<Rightarrow> string \<Rightarrow> int \<Rightarrow> nat \<times> nat \<Rightarrow> error + BinaryMatchResult list"
where
  "checkBase64RunEx a p data contextLen match =
     (case match of (start, end) \<Rightarrow>
        let base64Str = take (end - start) (drop start data) in
        case DecodeString base64Str of
          None \<Rightarrow> Inr []
        | Some decoded \<Rightarrow>
            if \<not> isText decoded then Inr []
            else econcat_map (\<lambda>rule.
                   econcat_map (checkBase64MatchEx a data contextLen start base64Str decoded rule)
                     (FindAllStringSubmatch (Pattern rule) decoded))
                 (rules p))"

definition checkBase64EncodedEx ::
  "arch \<Rightarrow> BinaryParser \<Rightarrow> string \<Rightarrow> int \<Rightarrow> error + BinaryMatchResult list"
where
  "checkBase64EncodedEx a p data contextLen =
     econcat_map (checkBase64RunEx a p data contextLen) (FindAllIndex base64Pattern data)"

section \<open>Engine: the three passes and the deduplication\<close>

text \<open>The match types handed to \<^verbatim>\<open>formatBinaryResult\<close>: "rule match", "keyword" and
  "Base64 encoding", in the source's language.\<close>

definition mt_rule :: string where
  "mt_rule = utf8 [0x89C4, 0x5219, 0x5339, 0x914D]"

definition mt_keyword :: string where
  "mt_keyword = utf8 [0x5173, 0x952E, 0x5B57]"

definition mt_base64 :: string where
  "mt_base64 = ''Base64'' @ utf8 [0x7F16, 0x7801]"

definition keyword_rule_name :: string where
  "keyword_rule_name = utf8 [0x5173, 0x952E, 0x5B57, 0x5339, 0x914D]"

definition keyword_rule_desc :: "string \<Rightarrow> string" where
  "keyword_rule_desc keyword = utf8 [0x5339, 0x914D, 0x5173, 0x952E, 0x5B57] @ '': '' @ keyword"

text \<open>
  The state of \<^verbatim>\<open>ParseWithKeywords\<close> is the set \<^verbatim>\<open>seenOffsets\<close> and the findings accepted
  so far, each with the match type of its pass. The source formats a finding into its
  output line as soon as it is accepted; the model keeps the findings and formats them at
  the end, which yields the same lines and panics in the same runs.
\<close>

type_synonym finding = "string \<times> BinaryMatchResult"

type_synonym pstate = "int set \<times> finding list"

fun add_results :: "string \<Rightarrow> BinaryMatchResult list \<Rightarrow> pstate \<Rightarrow> pstate" where
  "add_results matchType [] st = st"
| "add_results matchType (result # results) (seenOffsets, out) =
     (if Offset result \<in> seenOffsets then add_results matchType results (seenOffsets, out)
      else add_results matchType results
             (insert (Offset result) seenOffsets, out @ [(matchType, result)]))"

fun rule_pass ::
  "arch \<Rightarrow> BinaryParser \<Rightarrow> string \<Rightarrow> int \<Rightarrow> string list \<Rightarrow> pstate \<Rightarrow> error + pstate"
where
  "rule_pass a p data contextLen [] st = Inr st"
| "rule_pass a p data contextLen (str # strs) st =
     ebind (checkStringWithRulesEx a p str data contextLen) (\<lambda>results.
       rule_pass a p data contextLen strs (add_results mt_rule results st))"

text \<open>The loop over the keywords for one string: \<^verbatim>\<open>continue\<close> on a seen offset,
  \<^verbatim>\<open>break\<close> after the first finding.\<close>

fun keyword_loop ::
  "arch \<Rightarrow> string \<Rightarrow> int \<Rightarrow> string \<Rightarrow> string list \<Rightarrow> pstate \<Rightarrow> error + pstate"
where
  "keyword_loop a data contextLen str [] st = Inr st"
| "keyword_loop a data contextLen str (keyword # keywords) (seenOffsets, out) =
     (if Contains str keyword then
        let offset = findStringOffset data str in
        if offset \<in> seenOffsets
        then keyword_loop a data contextLen str keywords (seenOffsets, out)
        else ebind (getStringContext a data offset contextLen) (\<lambda>context.
               Inr (insert offset seenOffsets,
                    out @ [(mt_keyword,
                            \<lparr>RuleName = keyword_rule_name, RuleDesc = keyword_rule_desc keyword,
                             Risk = ''medium'', MatchedValue = str, Offset = offset,
                             Context = context\<rparr>)]))
      else keyword_loop a data contextLen str keywords (seenOffsets, out))"

fun keyword_pass ::
  "arch \<Rightarrow> string \<Rightarrow> int \<Rightarrow> string list \<Rightarrow> string list \<Rightarrow> pstate \<Rightarrow> error + pstate"
where
  "keyword_pass a data contextLen keywords [] st = Inr st"
| "keyword_pass a data contextLen keywords (str # strs) st =
     ebind (keyword_loop a data contextLen str keywords st)
       (keyword_pass a data contextLen keywords strs)"

definition base64_pass ::
  "arch \<Rightarrow> BinaryParser \<Rightarrow> string \<Rightarrow> int \<Rightarrow> pstate \<Rightarrow> error + pstate"
where
  "base64_pass a p data contextLen st =
     ebind (checkBase64EncodedEx a p data contextLen) (\<lambda>base64Results.
       Inr (add_results mt_base64 base64Results st))"

text \<open>The findings of \<^verbatim>\<open>ParseWithKeywords\<close> in the order of their output lines. The
  parameters \<^verbatim>\<open>filePath\<close> and \<^verbatim>\<open>verbose\<close> only feed the console and are left out.\<close>

definition ParseWithKeywords_findings ::
  "arch \<Rightarrow> BinaryParser \<Rightarrow> string \<Rightarrow> string list \<Rightarrow> int \<Rightarrow> error + finding list"
where
  "ParseWithKeywords_findings a p data keywords contextLen =
     (if length data < 64 then Inr []
      else ebind (isValidPEFile a data) (\<lambda>valid.
        if \<not> valid then Inr []
        else
          let allStrings = extractMeaningfulStrings data in
          ebind (rule_pass a p data contextLen allStrings ({}, [])) (\<lambda>st.
          ebind (if length keywords > 0
                 then keyword_pass a data contextLen keywords allStrings st else Inr st) (\<lambda>st.
          ebind (base64_pass a p data contextLen st) (\<lambda>st. Inr (snd st))))))"

text \<open>The verb \<^verbatim>\<open>%X\<close> of \<^verbatim>\<open>fmt\<close> on an \<^verbatim>\<open>int\<close>: upper-case hexadecimal digits, a minus
  sign in front of the digits of a negative number.\<close>

definition hexdigit :: "nat \<Rightarrow> char" where
  "hexdigit n = ''0123456789ABCDEF'' ! n"

function hex_digits :: "nat \<Rightarrow> string" where
  "hex_digits n = (if n < 16 then [hexdigit n] else hex_digits (n div 16) @ [hexdigit (n mod 16)])"
  by pat_completeness auto
termination
  by (relation "measure id") auto

declare hex_digits.simps [simp del]

definition fmt_X :: "int \<Rightarrow> string" where
  "fmt_X i = (if i < 0 then ''-'' @ hex_digits (nat (- i)) else hex_digits (nat i))"

definition formatBinaryResult :: "BinaryMatchResult \<Rightarrow> string \<Rightarrow> int \<Rightarrow> error + string" where
  "formatBinaryResult result matchType contextLen =
     ebind (if int (length (Context result)) > contextLen
            then ebind (slice (Context result) 0 contextLen) (\<lambda>front. Inr (front @ ''...''))
            else Inr (Context result)) (\<lambda>contextDisplay.
       Inr (''BINARY|'' @ matchType @ ''|'' @ RuleName result @ ''|'' @ Risk result @ ''|''
            @ MatchedValue result @ ''|0x'' @ fmt_X (Offset result) @ ''|'' @ contextDisplay))"

definition ParseWithKeywords ::
  "arch \<Rightarrow> BinaryParser \<Rightarrow> string \<Rightarrow> string list \<Rightarrow> int \<Rightarrow> error + string list"
where
  "ParseWithKeywords a p data keywords contextLen =
     ebind (ParseWithKeywords_findings a p data keywords contextLen)
       (econcat_map (\<lambda>(matchType, result).
          ebind (formatBinaryResult result matchType contextLen) (\<lambda>lineOutput. Inr [lineOutput])))"

section \<open>The rule corpus\<close>

definition quote_cls :: "(nat \<times> nat) list" where
  "quote_cls = [(34, 34), (39, 39)]"

definition ws0 :: regex where
  "ws0 = Rep (CClass False space_cls) 0 None"

definition ws1 :: regex where
  "ws1 = Rep (CClass False space_cls) 1 None"

definition opt_quote :: regex where
  "opt_quote = Opt (Cls (CClass False quote_cls))"

definition octet :: regex where
  "octet = Rep (CClass False digit_cls) 1 (Some 3)"

text \<open>
  The thirteen rules in the order of the source. Under the flag \<^verbatim>\<open>(?i)\<close> a letter of a
  literal matches both cases and the other members of its case-folding orbit (\<open>U+212A\<close> for
  k, \<open>U+017F\<close> for s), and a class that holds letters holds their orbits. Names and
  descriptions are written by code points.
\<close>

definition initDetectionRules :: "DetectionRule list" where
  "initDetectionRules =
    [\<lparr>Name = utf8 [0x6570, 0x636E, 0x5E93, 0x8FDE, 0x63A5, 0x5B57, 0x7B26, 0x4E32],
      Pattern = cat [Grp 1 (Or (liti ''ConnectionString'') (cat [liti ''connst'', Opt (liti ''r'')])),
                     ws0, lit ''='', ws0, Cls (CClass False quote_cls),
                     Grp 2 (Rep (CClass True quote_cls) 10 (Some 200)),
                     Cls (CClass False quote_cls)],
      Description = utf8 [0x6570, 0x636E, 0x5E93, 0x8FDE, 0x63A5, 0x5B57, 0x7B26, 0x4E32, 0x5305,
                          0x542B, 0x8BA4, 0x8BC1, 0x4FE1, 0x606F],
      RiskLevel = ''high''\<rparr>,
     \<lparr>Name = ''JDBC'' @ utf8 [0x8FDE, 0x63A5] @ ''URL'',
      Pattern = cat [lit ''jdbc:'', Rep (CClass False word_cls) 1 None, lit ''://'',
                     Rep (CClass True (space_cls @ quote_cls)) 1 None],
      Description = ''JDBC'' @ utf8 [0x6570, 0x636E, 0x5E93, 0x8FDE, 0x63A5] @ ''URL'',
      RiskLevel = ''high''\<rparr>,
     \<lparr>Name = utf8 [0x5BC6, 0x7801, 0x5B57, 0x6BB5],
      Pattern = cat [Grp 1 (Or (liti ''password'') (liti ''pwd'')), ws0, lit ''='', ws0, opt_quote,
                     Grp 2 (Rep (CClass True (quote_cls @ space_cls @ map ch '';&'')) 4 (Some 50))],
      Description = utf8 [0x5BC6, 0x7801, 0x5B57, 0x6BB5, 0x8D4B, 0x503C],
      RiskLevel = ''critical''\<rparr>,
     \<lparr>Name = utf8 [0x7528, 0x6237, 0x540D, 0x5B57, 0x6BB5],
      Pattern = cat [Grp 1 (Or (liti ''username'') (Or (liti ''user'') (liti ''uid''))), ws0,
                     lit ''='', ws0, opt_quote,
                     Grp 2 (Rep (CClass True (quote_cls @ space_cls @ map ch '';&'')) 3 (Some 50))],
      Description = utf8 [0x7528, 0x6237, 0x540D, 0x5B57, 0x6BB5, 0x8D4B, 0x503C],
      RiskLevel = ''high''\<rparr>,
     \<lparr>Name = ''API'' @ utf8 [0x5BC6, 0x94A5],
      Pattern = cat [Grp 1 (Or (cat [liti ''api'', Opt (Cls (CClass False (map ch ''_-''))),
                                     liti ''key''])
                               (Or (liti ''apisecret'') (liti ''sk-''))),
                     ws0, lit ''='', ws0, opt_quote,
                     Grp 2 (Rep (CClass False (alnum @ [(0x17F, 0x17F), (0x212A, 0x212A)]))
                              20 (Some 60))],
      Description = ''API'' @ utf8 [0x5BC6, 0x94A5, 0x6216, 0x8BBF, 0x95EE, 0x4EE4, 0x724C],
      RiskLevel = ''critical''\<rparr>,
     \<lparr>Name = ''SSH'' @ utf8 [0x5BC6, 0x94A5],
      Pattern = cat [lit ''ssh-'', Rep (CClass False word_cls) 1 None, ws1,
                     Rep (CClass False base64_cls) 100 None],
      Description = ''SSH'' @ utf8 [0x516C, 0x94A5, 0x6216, 0x79C1, 0x94A5],
      RiskLevel = ''critical''\<rparr>,
     \<lparr>Name = ''LDAP'' @ utf8 [0x8FDE, 0x63A5],
      Pattern = cat [lit ''ldap'', Opt (lit ''s''), lit ''://'',
                     Rep (CClass True (space_cls @ quote_cls)) 1 None],
      Description = ''LDAP'' @ utf8 [0x8FDE, 0x63A5, 0x5B57, 0x7B26, 0x4E32],
      RiskLevel = ''high''\<rparr>,
     \<lparr>Name = ''MySQL'' @ utf8 [0x8FDE, 0x63A5],
      Pattern = cat [lit ''mysqli_connect('', Rep (CClass True [ch CHR '')'']) 1 None, lit '')''],
      Description = ''MySQL'' @ utf8 [0x6570, 0x636E, 0x5E93, 0x8FDE, 0x63A5],
      RiskLevel = ''high''\<rparr>,
     \<lparr>Name = utf8 [0x4E2D, 0x6587, 0x51ED, 0x636E],
      Pattern = cat [Grp 1 (Or (litr [0x8D26, 0x53F7])
                               (Or (litr [0x5BC6, 0x7801]) (litr [0x7528, 0x6237, 0x540D]))),
                     ws0, Cls (CClass False (map ch ''=:'')), ws0, opt_quote,
                     Grp 2 (Rep (CClass True (quote_cls @ space_cls)) 3 (Some 50))],
      Description = utf8 [0x4E2D, 0x6587, 0x8D26, 0x53F7, 0x5BC6, 0x7801, 0x4FE1, 0x606F],
      RiskLevel = ''high''\<rparr>,
     \<lparr>Name = ''Bearer'' @ utf8 [0x4EE4, 0x724C],
      Pattern = cat [lit ''Bearer'', ws1,
                     Rep (CClass False (word_cls @ map ch ''-._~+/'')) 20 (Some 100)],
      Description = ''Bearer'' @ utf8 [0x8BA4, 0x8BC1, 0x4EE4, 0x724C],
      RiskLevel = ''high''\<rparr>,
     \<lparr>Name = utf8 [0x79C1, 0x94A5, 0x6587, 0x4EF6],
      Pattern = cat [lit ''-----BEGIN '', Or (lit ''RSA'') (Or (lit ''DSA'') (lit ''EC'')),
                     lit '' PRIVATE KEY-----''],
      Description = utf8 [0x52A0, 0x5BC6, 0x79C1, 0x94A5, 0x6587, 0x4EF6],
      RiskLevel = ''critical''\<rparr>,
     \<lparr>Name = utf8 [0x90AE, 0x7BB1, 0x5730, 0x5740],
      Pattern = cat [Rep (CClass False (alnum @ map ch ''._%+-'')) 1 None, lit ''@'',
                     Rep (CClass False (alnum @ map ch ''.-'')) 1 None, lit ''.'',
                     Rep (CClass False letter_cls) 2 None],
      Description = utf8 [0x90AE, 0x7BB1, 0x5730, 0x5740, 0xFF08, 0x53EF, 0x80FD, 0x7528, 0x4E8E,
                          0x8BA4, 0x8BC1, 0xFF09],
      RiskLevel = ''medium''\<rparr>,
     \<lparr>Name = ''IP'' @ utf8 [0x5730, 0x5740, 0x548C, 0x7AEF, 0x53E3],
      Pattern = cat [WordB, octet, lit ''.'', octet, lit ''.'', octet, lit ''.'', octet,
                     Opt (cat [lit '':'', Rep (CClass False digit_cls) 1 None]), WordB],
      Description = ''IP'' @ utf8 [0x5730, 0x5740, 0x548C, 0x7AEF, 0x53E3, 0x4FE1, 0x606F],
      RiskLevel = ''low''\<rparr>]"

definition NewBinaryParser :: BinaryParser where
  "NewBinaryParser = \<lparr>rules = initDetectionRules\<rparr>"

section \<open>Notions used in the statements\<close>

text \<open>The offsets of a list of findings, and the invariant of the deduplication: the
  findings accepted so far have pairwise different offsets, all recorded in
  \<^verbatim>\<open>seenOffsets\<close>. A pass extends a state when it keeps the invariant and only appends
  findings of its own match type, each with a given property.\<close>

definition offsets :: "finding list \<Rightarrow> int list" where
  "offsets out = map (\<lambda>f. Offset (snd f)) out"

definition dedup_inv :: "pstate \<Rightarrow> bool" where
  "dedup_inv st = (distinct (offsets (snd st)) \<and> set (offsets (snd st)) \<subseteq> fst st)"

definition extends :: "string \<Rightarrow> (BinaryMatchResult \<Rightarrow> bool) \<Rightarrow> pstate \<Rightarrow> pstate \<Rightarrow> bool" where
  "extends mt P st st' =
     ((dedup_inv st \<longrightarrow> dedup_inv st') \<and>
      (\<exists>new. snd st' = snd st @ new \<and> (\<forall>f\<in>set new. fst f = mt \<and> P (snd f))))"


text \<open>Test inputs: the minimal header (a 64-byte DOS header whose pointer at \<open>0x3C\<close> is
  \<open>0x40\<close>, then the signature \<open>PE\\0\\0\<close>), followed at offset 68 by a string in ASCII or in
  UTF-16LE.\<close>

definition pe_header :: string where
  "pe_header = ''MZ'' @ replicate 58 (CHR 0x00) @ [CHR 0x40, CHR 0x00, CHR 0x00, CHR 0x00]
               @ ''PE'' @ [CHR 0x00, CHR 0x00]"

definition utf16le :: "string \<Rightarrow> string" where
  "utf16le s = concat (map (\<lambda>c. [c, CHR 0x00]) s)"

definition scenario_buffer :: string where
  "scenario_buffer = pe_header @ ''password=Secr3t!123''"


definition password_finding :: "int \<Rightarrow> string \<Rightarrow> BinaryMatchResult" where
  "password_finding offset cx =
     \<lparr>RuleName = utf8 [0x5BC6, 0x7801, 0x5B57, 0x6BB5],
      RuleDesc = utf8 [0x5BC6, 0x7801, 0x5B57, 0x6BB5, 0x8D4B, 0x503C],
      Risk = ''critical'', MatchedValue = ''Secr3t!123'', Offset = offset, Context = cx\<rparr>"

text \<open>A pattern none of whose matches is empty.\<close>

definition nonempty_matches :: "regex \<Rightarrow> bool" where
  "nonempty_matches re =
     (\<forall>p rs caps p' rs' caps'. (p', rs', caps') \<in> set (rmatch re (p, rs, caps))
        \<longrightarrow> length rs' < length rs)"


text \<open>Further test inputs: a 64-byte buffer with the DOS signature and the pointer
  \<open>0xFFFFFFFF\<close>; the header followed by a string in UTF-16LE that no rule matches; the
  header followed by the base64 encoding of the 30 bytes
  \<open>password=Secr3t!123 0123456789\<close>.\<close>

definition bad_pointer_buffer :: string where
  "bad_pointer_buffer = ''MZ'' @ replicate 58 (CHR 0x00) @ [CHR 0xFF, CHR 0xFF, CHR 0xFF, CHR 0xFF]"

text \<open>The credential-validity check as the specification words it: the generic token
  class holds the characters \<open>+\<close>, \<open>=\<close> and \<open>-\<close>, not the range from \<open>+\<close> to \<open>=\<close>; the
  other six shapes are those of the source.\<close>

definition spec_validPatterns :: "regex list" where
  "spec_validPatterns =
     cat [Bol, Rep (CClass False (alnum @ map ch ''!@#$%^&*()_+=-'')) 4 (Some 50), Eol]
     # tl validPatterns"

definition spec_isValidCredential :: "string \<Rightarrow> bool" where
  "spec_isValidCredential str =
     (\<not> length str < 3 \<and> \<not> list_ex (\<lambda>exclude. Contains str exclude) excluded \<and>
      list_ex (\<lambda>pattern. MatchString pattern str) spec_validPatterns)"

definition keyword_utf16_buffer :: string where
  "keyword_utf16_buffer = pe_header @ utf16le ''server config''"




section \<open>Properties of the garbage filter\<close>

lemma runes_ascii:
  "\<forall>c\<in>set s. (of_char c :: nat) < 128 \<Longrightarrow> runes s = map (\<lambda>c. (of_char c, [c])) s"
  by (induction s) simp_all

lemma specialCharCount_printable:
  assumes "\<forall>c\<in>set s. printable c"
  shows "specialCharCount s = 0"
proof -
  have a: "\<forall>c\<in>set s. (of_char c :: nat) < 128"
    using assms by (auto simp: printable_def)
  have "filter (\<lambda>r. specialChar (fst r)) (map (\<lambda>c. (of_char c, [c])) s) = []"
    using assms by (auto simp: filter_empty_conv specialChar_def printable_def)
  then show ?thesis
    by (simp add: specialCharCount_def runes_ascii [OF a])
qed

lemma spec_outside_count_printable:
  assumes "\<forall>c\<in>set s. printable c"
  shows "length (filter (\<lambda>r. spec_outside (fst r)) (runes s)) = 0"
proof -
  have a: "\<forall>c\<in>set s. (of_char c :: nat) < 128"
    using assms by (auto simp: printable_def)
  have "filter (\<lambda>r. spec_outside (fst r)) (map (\<lambda>c. (of_char c, [c])) s) = []"
    using assms by (auto simp: filter_empty_conv spec_outside_def printable_def)
  then show ?thesis
    by (simp add: runes_ascii [OF a])
qed

lemma hasRepeatingPattern_iff:
  "hasRepeatingPattern str \<longleftrightarrow>
     20 \<le> length str \<and> (\<exists>i < length str - 10. run4_at str i)"
proof (cases "length str < 20")
  case True
  then show ?thesis by (simp add: hasRepeatingPattern_def)
next
  case False
  then have "\<And>i. i < length str - 10 \<Longrightarrow> i + 3 < length str" by arith
  with False show ?thesis
    by (auto simp: hasRepeatingPattern_def list_ex_iff run4_at_def)
qed

lemma isLikelyGarbage_iff:
  "isLikelyGarbage str \<longleftrightarrow>
     10 \<le> length str \<and>
     (10 * specialCharCount str > 3 * length str
      \<or> (20 \<le> length str \<and> (\<exists>i < length str - 10. run4_at str i)))"
  by (auto simp: isLikelyGarbage_def hasRepeatingPattern_iff)

lemma isLikelyGarbage_rejected: "isLikelyGarbage str \<Longrightarrow> \<not> isMeaningfulString str"
  by (simp add: isMeaningfulString_def)

text \<open>
  Claim C7, as amended. A string is classified likely garbage (and hence rejected as a
  candidate) exactly when its length in bytes is at least 10 and either the number of its
  characters outside \<open>[32,126] \<union> {tab, LF}\<close> is more than three tenths of its length in
  bytes, or its length is at least 20 and four identical consecutive bytes start at an
  index below \<open>length - 10\<close>. The carriage return counts as a character outside the
  range, unlike in the sibling test \<open>isText\<close> of the base64 layer.
\<close>

theorem isLikelyGarbage_characterised:
  "(isLikelyGarbage str \<longleftrightarrow>
      10 \<le> length str \<and>
      (10 * length (filter (\<lambda>r. \<not> (32 \<le> fst r \<and> fst r \<le> 126) \<and> fst r \<noteq> 9 \<and> fst r \<noteq> 10)
                      (runes str)) > 3 * length str
       \<or> (20 \<le> length str \<and> (\<exists>i < length str - 10. run4_at str i))))
   \<and> (isLikelyGarbage str \<longrightarrow> \<not> isMeaningfulString str)"
proof -
  have "filter (\<lambda>r. specialChar (fst r)) (runes str) =
      filter (\<lambda>r. \<not> (32 \<le> fst r \<and> fst r \<le> 126) \<and> fst r \<noteq> 9 \<and> fst r \<noteq> 10) (runes str)"
    by (rule filter_cong) (auto simp: specialChar_def)
  then have "specialCharCount str =
      length (filter (\<lambda>r. \<not> (32 \<le> fst r \<and> fst r \<le> 126) \<and> fst r \<noteq> 9 \<and> fst r \<noteq> 10) (runes str))"
    by (simp only: specialCharCount_def)
  then show ?thesis
    using isLikelyGarbage_iff [of str] isLikelyGarbage_rejected [of str] by simp
qed

theorem isLikelyGarbage_characterised_witness:
  "isLikelyGarbage ''aaaa_password_config'' \<and> \<not> isMeaningfulString ''aaaa_password_config''"
proof -
  have "run4_at ''aaaa_password_config'' 0"
    by code_simp
  then have "\<exists>i < length ''aaaa_password_config'' - 10. run4_at ''aaaa_password_config'' i"
    by (intro exI [of _ 0]) simp
  then show ?thesis
    using isLikelyGarbage_characterised [of "''aaaa_password_config''"] by simp
qed

text \<open>
  The claim as the specification states it fails twice. On the 15-byte string
  \<open>password=12aaaa\<close> four equal characters stand past position 10, but the code looks for
  a repetition only in strings of 20 bytes or more. On the 10-byte string of \<open>abcdef\<close> and
  four carriage returns the code counts the carriage returns, four tenths of the string,
  while the specification exempts them.
\<close>

theorem isLikelyGarbage_spec_counterexample:
  "\<not> (isLikelyGarbage ''password=12aaaa'' \<longleftrightarrow> spec_likely_garbage ''password=12aaaa'')
   \<and> \<not> (isLikelyGarbage (''abcdef'' @ [CHR 0x0D, CHR 0x0D, CHR 0x0D, CHR 0x0D])
          \<longleftrightarrow> spec_likely_garbage (''abcdef'' @ [CHR 0x0D, CHR 0x0D, CHR 0x0D, CHR 0x0D]))"
  by code_simp

section \<open>The deduplication across the passes\<close>

lemma ebind_Inr: "ebind m f = Inr y \<longleftrightarrow> (\<exists>x. m = Inr x \<and> f x = Inr y)"
  by (cases m) (simp_all add: ebind_def)

lemma extends_refl: "extends mt P st st"
  by (simp add: extends_def)

lemma extends_trans: "extends mt P st st' \<Longrightarrow> extends mt P st' st'' \<Longrightarrow> extends mt P st st''"
  unfolding extends_def by (elim conjE exE) auto

lemma extends_step:
  assumes "Offset r \<notin> seen" "P r"
  shows "extends mt P (seen, out) (insert (Offset r) seen, out @ [(mt, r)])"
  using assms unfolding extends_def dedup_inv_def offsets_def by auto

lemma add_results_extends:
  "\<forall>r\<in>set rs. P r \<Longrightarrow> extends mt P st (add_results mt rs st)"
proof (induction rs arbitrary: st)
  case Nil
  show ?case by (simp add: extends_refl)
next
  case (Cons r rs)
  obtain seen out where st: "st = (seen, out)" by (cases st)
  show ?case
  proof (cases "Offset r \<in> seen")
    case True
    with Cons st show ?thesis by simp
  next
    case False
    have "extends mt P (seen, out) (insert (Offset r) seen, out @ [(mt, r)])"
      using False Cons.prems by (intro extends_step) simp_all
    moreover have "extends mt P (insert (Offset r) seen, out @ [(mt, r)])
        (add_results mt rs (insert (Offset r) seen, out @ [(mt, r)]))"
      using Cons by simp
    ultimately show ?thesis
      using False st by (simp add: extends_trans)
  qed
qed

lemma econcat_map_Inr:
  "econcat_map f xs = Inr ys \<Longrightarrow> y \<in> set ys \<Longrightarrow> \<exists>x zs. x \<in> set xs \<and> f x = Inr zs \<and> y \<in> set zs"
proof (induction xs arbitrary: ys)
  case Nil
  then show ?case by simp
next
  case (Cons x xs)
  from Cons.prems(1) obtain zs ws where z: "f x = Inr zs" and w: "econcat_map f xs = Inr ws"
    and ys: "ys = zs @ ws"
    by (auto simp: ebind_Inr)
  show ?case
  proof (cases "y \<in> set zs")
    case True
    with z show ?thesis by auto
  next
    case False
    with ys Cons.prems(2) have "y \<in> set ws" by simp
    from Cons.IH [OF w this] show ?thesis by auto
  qed
qed

lemma rule_pass_extends:
  assumes "\<And>str results. str \<in> set strs \<Longrightarrow> checkStringWithRulesEx a p str data contextLen = Inr results
             \<Longrightarrow> \<forall>r\<in>set results. P r"
    and "rule_pass a p data contextLen strs st = Inr st'"
  shows "extends mt_rule P st st'"
  using assms
proof (induction strs arbitrary: st)
  case Nil
  then show ?case by (simp add: extends_refl)
next
  case (Cons str strs)
  from Cons.prems(2) obtain results where
    r: "checkStringWithRulesEx a p str data contextLen = Inr results" and
    rest: "rule_pass a p data contextLen strs (add_results mt_rule results st) = Inr st'"
    by (auto simp: ebind_Inr)
  have "\<forall>r\<in>set results. P r" using Cons.prems(1) [OF _ r] by simp
  then have "extends mt_rule P st (add_results mt_rule results st)"
    by (rule add_results_extends)
  moreover have "extends mt_rule P (add_results mt_rule results st) st'"
  proof (rule Cons.IH [OF _ rest])
    fix s rs
    assume "s \<in> set strs" "checkStringWithRulesEx a p s data contextLen = Inr rs"
    then show "\<forall>r\<in>set rs. P r"
      using Cons.prems(1) [of s rs] by simp
  qed
  ultimately show ?case by (rule extends_trans)
qed

lemma keyword_loop_extends:
  assumes "\<And>r. RuleName r = keyword_rule_name \<Longrightarrow> MatchedValue r = str \<Longrightarrow>
               Offset r = findStringOffset data str \<Longrightarrow>
               getStringContext a data (Offset r) contextLen = Inr (Context r) \<Longrightarrow> P r"
    and "keyword_loop a data contextLen str kws st = Inr st'"
  shows "extends mt_keyword P st st'"
  using assms(2)
proof (induction kws arbitrary: st)
  case Nil
  then show ?case by (simp add: extends_refl)
next
  case (Cons keyword kws)
  obtain seen out where st: "st = (seen, out)" by (cases st)
  show ?case
  proof (cases "Contains str keyword")
    case False
    with Cons st show ?thesis by simp
  next
    case True
    show ?thesis
    proof (cases "findStringOffset data str \<in> seen")
      case True
      with Cons st \<open>Contains str keyword\<close> show ?thesis by simp
    next
      case False
      with Cons.prems st \<open>Contains str keyword\<close> obtain cx where
        c: "getStringContext a data (findStringOffset data str) contextLen = Inr cx" and
        st': "st' = (insert (findStringOffset data str) seen,
                out @ [(mt_keyword,
                   \<lparr>RuleName = keyword_rule_name, RuleDesc = keyword_rule_desc keyword,
                    Risk = ''medium'', MatchedValue = str, Offset = findStringOffset data str,
                    Context = cx\<rparr>)])"
        by (auto simp: ebind_Inr Let_def)
      have "P \<lparr>RuleName = keyword_rule_name, RuleDesc = keyword_rule_desc keyword,
                    Risk = ''medium'', MatchedValue = str, Offset = findStringOffset data str,
                    Context = cx\<rparr>"
        using c by (intro assms(1)) simp_all
      then show ?thesis
        unfolding st st' using False extends_step [of _ seen P mt_keyword out]
        by (metis BinaryMatchResult.select_convs(5))
    qed
  qed
qed

lemma keyword_pass_extends:
  assumes "\<And>r. RuleName r = keyword_rule_name \<Longrightarrow> MatchedValue r \<in> set strs \<Longrightarrow>
               Offset r = findStringOffset data (MatchedValue r) \<Longrightarrow>
               getStringContext a data (Offset r) contextLen = Inr (Context r) \<Longrightarrow> P r"
    and "keyword_pass a data contextLen kws strs st = Inr st'"
  shows "extends mt_keyword P st st'"
  using assms
proof (induction strs arbitrary: st)
  case Nil
  then show ?case by (simp add: extends_refl)
next
  case (Cons str strs)
  from Cons.prems(2) obtain st1 where
    l: "keyword_loop a data contextLen str kws st = Inr st1" and
    rest: "keyword_pass a data contextLen kws strs st1 = Inr st'"
    by (auto simp: ebind_Inr)
  have "extends mt_keyword P st st1"
    using l Cons.prems(1) by (intro keyword_loop_extends [where str = str]) auto
  moreover have "extends mt_keyword P st1 st'"
  proof (rule Cons.IH [OF _ rest])
    fix r :: BinaryMatchResult
    assume "RuleName r = keyword_rule_name" "MatchedValue r \<in> set strs"
      "Offset r = findStringOffset data (MatchedValue r)"
      "getStringContext a data (Offset r) contextLen = Inr (Context r)"
    then show "P r"
      using Cons.prems(1) [of r] by simp
  qed
  ultimately show ?case by (rule extends_trans)
qed

lemma base64_pass_extends:
  assumes "\<And>results. checkBase64EncodedEx a p data contextLen = Inr results \<Longrightarrow> \<forall>r\<in>set results. P r"
    and "base64_pass a p data contextLen st = Inr st'"
  shows "extends mt_base64 P st st'"
  using assms by (auto simp: base64_pass_def ebind_Inr intro: add_results_extends)


lemma findings_passes:
  assumes run: "ParseWithKeywords_findings a p data kws contextLen = Inr fs"
    and P_rule: "\<And>str results. 64 \<le> length data \<Longrightarrow>
        str \<in> set (extractMeaningfulStrings data) \<Longrightarrow>
        checkStringWithRulesEx a p str data contextLen = Inr results \<Longrightarrow> \<forall>r\<in>set results. P1 r"
    and P_kw: "\<And>r. 64 \<le> length data \<Longrightarrow> RuleName r = keyword_rule_name \<Longrightarrow>
        MatchedValue r \<in> set (extractMeaningfulStrings data) \<Longrightarrow>
        Offset r = findStringOffset data (MatchedValue r) \<Longrightarrow>
        getStringContext a data (Offset r) contextLen = Inr (Context r) \<Longrightarrow> P2 r"
    and P_b64: "\<And>results. 64 \<le> length data \<Longrightarrow>
        checkBase64EncodedEx a p data contextLen = Inr results \<Longrightarrow> \<forall>r\<in>set results. P3 r"
  shows "distinct (offsets fs) \<and>
     (\<exists>xs ys zs. fs = xs @ ys @ zs \<and> (\<forall>f\<in>set xs. fst f = mt_rule \<and> P1 (snd f))
        \<and> (\<forall>f\<in>set ys. fst f = mt_keyword \<and> P2 (snd f))
        \<and> (\<forall>f\<in>set zs. fst f = mt_base64 \<and> P3 (snd f)))"
proof (cases "length data < 64")
  case True
  with run have "fs = []" by (simp add: ParseWithKeywords_findings_def)
  then show ?thesis by (simp add: offsets_def)
next
  case long: False
  then have len: "64 \<le> length data" by simp
  from long run obtain valid where v: "isValidPEFile a data = Inr valid"
    by (auto simp: ParseWithKeywords_findings_def ebind_Inr)
  show ?thesis
  proof (cases valid)
    case False
    with run v long have "fs = []"
      by (simp add: ParseWithKeywords_findings_def ebind_def)
    then show ?thesis by (simp add: offsets_def)
  next
    case True
    let ?strs = "extractMeaningfulStrings data"
    from run v True long obtain st1 st2 st3 where
      s1: "rule_pass a p data contextLen ?strs ({}, []) = Inr st1" and
      s2: "(if length kws > 0 then keyword_pass a data contextLen kws ?strs st1 else Inr st1) = Inr st2" and
      s3: "base64_pass a p data contextLen st2 = Inr st3" and
      fs: "fs = snd st3"
      by (auto simp: ParseWithKeywords_findings_def ebind_Inr Let_def)
    have e1: "extends mt_rule P1 ({}, []) st1"
      using P_rule [OF len] s1 by (rule rule_pass_extends)
    have e2: "extends mt_keyword P2 st1 st2"
    proof (cases "length kws > 0")
      case True
      with s2 have "keyword_pass a data contextLen kws ?strs st1 = Inr st2" by simp
      with P_kw [OF len] show ?thesis by (rule keyword_pass_extends)
    next
      case False
      with s2 show ?thesis by (simp add: extends_refl)
    qed
    have e3: "extends mt_base64 P3 st2 st3"
      using P_b64 [OF len] s3 by (rule base64_pass_extends)
    have i0: "dedup_inv ({}, [])" by (simp add: dedup_inv_def offsets_def)
    from e1 i0 obtain xs where i1: "dedup_inv st1" and x: "snd st1 = xs"
      "\<forall>f\<in>set xs. fst f = mt_rule \<and> P1 (snd f)"
      by (auto simp: extends_def)
    from e2 i1 obtain ys where i2: "dedup_inv st2" and y: "snd st2 = snd st1 @ ys"
      "\<forall>f\<in>set ys. fst f = mt_keyword \<and> P2 (snd f)"
      by (auto simp: extends_def)
    from e3 i2 obtain zs where i3: "dedup_inv st3" and z: "snd st3 = snd st2 @ zs"
      "\<forall>f\<in>set zs. fst f = mt_base64 \<and> P3 (snd f)"
      by (auto simp: extends_def)
    have "fs = xs @ ys @ zs" using fs x y z by simp
    moreover have "distinct (offsets fs)" using i3 fs by (simp add: dedup_inv_def)
    ultimately show ?thesis using x y z by blast
  qed
qed




lemma scenarioB_eval:
  "ParseWithKeywords_findings GOARCH_amd64 NewBinaryParser scenario_buffer [''Secr3t''] 150 =
     Inr [(mt_rule, password_finding 68
             (''MZ'' @ replicate 58 (CHR ''.'') @ ''@...PE..password=Secr3t!123''))]"
  by code_simp










section \<open>The format validator and the two architectures\<close>

lemma ebind_Inr_simp: "ebind (Inr x) f = f x"
  by (simp add: ebind_def)

lemma take2_ex: "2 \<le> length xs \<Longrightarrow> \<exists>a b. take 2 xs = [a, b]"
  by (auto simp: numeral_eq_Suc Suc_le_length_iff)

lemma take4_ex: "4 \<le> length xs \<Longrightarrow> \<exists>a b c d. take 4 xs = [a, b, c, d]"
  by (auto simp: numeral_eq_Suc Suc_le_length_iff)

lemma le_nat2_bound: "le_nat [a, b] < 65536"
  unfolding le_nat_def
  using nat_of_char_less_256 [of a] nat_of_char_less_256 [of b]
  by (simp del: nat_of_char_less_256)

lemma le_nat4_bound: "le_nat [a, b, c, d] < 4294967296"
  using nat_of_char_less_256 [of a] nat_of_char_less_256 [of b]
    nat_of_char_less_256 [of c] nat_of_char_less_256 [of d]
  by (simp add: le_nat_def del: nat_of_char_less_256)

lemma Uint16_le_nat: "Uint16 [a, b] = Inr (word_of_nat (le_nat [a, b]))"
  by (simp add: le_nat_def)

lemma Uint32_le_nat: "Uint32 [a, b, c, d] = Inr (word_of_nat (le_nat [a, b, c, d]))"
  by (simp add: le_nat_def add.assoc)

lemma word16_eq: "n < 65536 \<Longrightarrow> ((word_of_nat n :: 16 word) = DOS_SIGNATURE) = (n = 0x5A4D)"
  by (simp add: DOS_SIGNATURE_def word_unat_eq_iff unat_of_nat)

lemma word32_eq: "n < 4294967296 \<Longrightarrow> ((word_of_nat n :: 32 word) = PE_SIGNATURE) = (n = 0x4550)"
  by (simp add: PE_SIGNATURE_def word_unat_eq_iff unat_of_nat)

lemma word32_uint: "n < 4294967296 \<Longrightarrow> uint (word_of_nat n :: 32 word) = int n"
  by (simp add: uint_nat unat_of_nat)

lemma wrap_int_amd64: "0 \<le> x \<Longrightarrow> x < 2 ^ 63 \<Longrightarrow> wrap_int GOARCH_amd64 x = x"
  by (simp add: wrap_int_def)

lemma slice_take_drop:
  "lo \<le> hi \<Longrightarrow> hi \<le> length s \<Longrightarrow> slice s (int lo) (int hi) = Inr (take (hi - lo) (drop lo s))"
  by (simp add: slice_def nat_diff_distrib' flip: of_nat_diff)

lemma isValidPEFile_amd64:
  assumes len: "64 \<le> length data" and fits: "int (length data) < 2 ^ 63"
  shows "isValidPEFile GOARCH_amd64 data = Inr (spec_valid_format data)"
proof -
  have "2 \<le> length data" using len by simp
  from take2_ex [OF this] obtain a b where t2: "take 2 data = [a, b]"
    by auto
  have "4 \<le> length (drop 60 data)" using len by simp
  from take4_ex [OF this] obtain c0 c1 c2 c3 where t4: "take 4 (drop 60 data) = [c0, c1, c2, c3]"
    by auto
  define n2 where "n2 = le_nat (take 2 data)"
  define pn where "pn = le_nat (take 4 (drop 60 data))"
  have n2: "n2 < 65536" unfolding n2_def t2 by (rule le_nat2_bound)
  have pn: "pn < 4294967296" unfolding pn_def t4 by (rule le_nat4_bound)
  have s2: "slice data 0 2 = Inr (take 2 data)"
    using len slice_take_drop [of 0 2 data] by simp
  have s4: "slice data 0x3C 0x40 = Inr (take 4 (drop 60 data))"
    using len slice_take_drop [of 60 64 data] by simp
  have u2: "ebind (slice data 0 2) Uint16 = Inr (word_of_nat n2)"
    by (simp only: s2 ebind_Inr_simp t2 n2_def Uint16_le_nat)
  have u4: "ebind (slice data 0x3C 0x40) Uint32 = Inr (word_of_nat pn)"
    by (simp only: s4 ebind_Inr_simp t4 pn_def Uint32_le_nat)
  have off: "uint (word_of_nat pn :: 32 word) = int pn"
    using pn by (rule word32_uint)
  have wr: "wrap_int GOARCH_amd64 (int pn + 4) = int pn + 4"
    using pn by (simp add: wrap_int_amd64)
  have step: "isValidPEFile GOARCH_amd64 data =
      (if n2 \<noteq> 0x5A4D then Inr False
       else if \<not> pn + 4 \<le> length data then Inr False
       else ebind (ebind (slice data (int pn) (int pn + 4)) Uint32)
              (\<lambda>sig2. Inr (sig2 = PE_SIGNATURE)))"
    using len by (simp add: isValidPEFile_def u2 u4 ebind_Inr_simp word16_eq [OF n2] off wr Let_def)
  have spec: "spec_valid_format data =
      (n2 = 0x5A4D \<and> pn + 4 \<le> length data \<and> le_nat (take 4 (drop pn data)) = 0x4550)"
    using len by (simp add: spec_valid_format_def n2_def pn_def Let_def)
  show ?thesis
  proof (cases "n2 = 0x5A4D \<and> pn + 4 \<le> length data")
    case False
    then show ?thesis
      unfolding step spec by auto
  next
    case True
    then have "4 \<le> length (drop pn data)" by (simp only: length_drop) arith
    from take4_ex [OF this] obtain d0 d1 d2 d3 where
      t4p: "take 4 (drop pn data) = [d0, d1, d2, d3]"
      by auto
    have sp: "slice data (int pn) (int pn + 4) = Inr (take 4 (drop pn data))"
      using True slice_take_drop [of pn "pn + 4" data] by simp
    have up: "ebind (slice data (int pn) (int pn + 4)) Uint32
        = Inr (word_of_nat (le_nat (take 4 (drop pn data))))"
      by (simp only: sp ebind_Inr_simp t4p Uint32_le_nat)
    have bp: "le_nat (take 4 (drop pn data)) < 4294967296"
      unfolding t4p by (rule le_nat4_bound)
    show ?thesis
      unfolding step spec up using True by (simp add: ebind_Inr_simp word32_eq [OF bp])
  qed
qed

lemma ParseWithKeywords_amd64_invalid:
  assumes "int (length data) < 2 ^ 63" "\<not> spec_valid_format data"
  shows "ParseWithKeywords GOARCH_amd64 p data kws contextLen = Inr []"
proof (cases "length data < 64")
  case True
  then show ?thesis
    by (simp add: ParseWithKeywords_def ParseWithKeywords_findings_def ebind_def)
next
  case False
  then have "isValidPEFile GOARCH_amd64 data = Inr False"
    using isValidPEFile_amd64 [of data] assms by simp
  with False show ?thesis
    by (simp add: ParseWithKeywords_def ParseWithKeywords_findings_def ebind_def)
qed

lemma bad_pointer_invalid: "\<not> spec_valid_format bad_pointer_buffer"
  by code_simp

lemma bad_pointer_386: "isValidPEFile GOARCH_386 bad_pointer_buffer = Inl Panic"
  by code_simp

lemma bad_pointer_amd64: "isValidPEFile GOARCH_amd64 bad_pointer_buffer = Inr False"
  by code_simp

text \<open>
  Claim C1. On the 64-bit build the claim holds (\<open>ParseWithKeywords_amd64_invalid\<close>): a
  buffer that fails the validation yields the empty result. On the 32-bit build, which the
  build script of the repository produces, the claim fails: for the 64-byte buffer with
  the DOS signature and the pointer \<open>0xFFFFFFFF\<close> the conversion to \<^verbatim>\<open>int\<close> gives \<open>-1\<close>,
  the bound \<open>peOffset + 4 \<le> len(data)\<close> holds, and the slice \<^verbatim>\<open>data[-1:3]\<close> panics, whatever
  the rules, the keywords and the context length.
\<close>

theorem ParseWithKeywords_386_panics:
  "\<not> spec_valid_format bad_pointer_buffer \<and>
   ParseWithKeywords GOARCH_386 p bad_pointer_buffer kws contextLen = Inl Panic"
proof -
  have "length bad_pointer_buffer = 64" by code_simp
  then have "ParseWithKeywords_findings GOARCH_386 p bad_pointer_buffer kws contextLen = Inl Panic"
    by (simp add: ParseWithKeywords_findings_def bad_pointer_386 ebind_def)
  then show ?thesis
    by (simp add: ParseWithKeywords_def ebind_def bad_pointer_invalid)
qed


section \<open>The credential-validity check\<close>

lemma isValidCredential_short: "length str < 3 \<Longrightarrow> \<not> isValidCredential str"
  by (simp add: isValidCredential_def)

lemma isValidCredential_denylisted:
  "exclude \<in> set excluded \<Longrightarrow> Contains str exclude \<Longrightarrow> \<not> isValidCredential str"
  by (auto simp: isValidCredential_def list_ex_iff)

text \<open>
  Claim C5. The check rejects short and denylisted strings, but its first pattern is not
  the class of the claim: in \<^verbatim>\<open>[a-zA-Z0-9!@#$%^&*()_+-=]\<close> the characters \<^verbatim>\<open>+-=\<close> form the
  range from \<open>+\<close> to \<open>=\<close>, which also holds \<^verbatim>\<open>, . / : ; <\<close>. The string \<open>p4ss.w0rd\<close> passes
  the two filters and fits none of the seven shapes of the claim, and the code accepts it.
\<close>

theorem isValidCredential_range_accepts:
  "isValidCredential ''p4ss.w0rd'' \<and> \<not> spec_isValidCredential ''p4ss.w0rd''"
  by code_simp


section \<open>Scenario A\<close>

















section \<open>Matches lie inside the subject\<close>


lemma rmatch_suffix:
  "(p', rs', caps') \<in> set (rmatch re (p, rs, caps)) \<Longrightarrow> \<exists>k. rs' = drop k rs"
proof (induction re arbitrary: p rs caps p' rs' caps')
  case Eps
  then show ?case by (auto intro: exI [of _ 0])
next
  case (Cls c)
  then show ?case by (auto split: list.splits if_splits intro: exI [of _ 1])
next
  case (Rep c lo hi)
  then show ?case by (auto simp: Let_def)
next
  case (Cat x y)
  from Cat.prems obtain p1 rs1 caps1 where
    a: "(p1, rs1, caps1) \<in> set (rmatch x (p, rs, caps))" and
    b: "(p', rs', caps') \<in> set (rmatch y (p1, rs1, caps1))"
    by auto
  from Cat.IH(1) [OF a] obtain k1 where "rs1 = drop k1 rs" by auto
  moreover from Cat.IH(2) [OF b] obtain k2 where "rs' = drop k2 rs1" by auto
  ultimately have "rs' = drop (k2 + k1) rs" by simp
  then show ?case by blast
next
  case (Or x y)
  then show ?case by auto
next
  case (Grp g x)
  then show ?case by auto
next
  case (Opt x)
  then show ?case by (auto intro: exI [of _ 0])
next
  case WordB
  then show ?case by (auto split: if_splits intro: exI [of _ 0])
next
  case Bol
  then show ?case by (auto split: if_splits intro: exI [of _ 0])
next
  case Eol
  then show ?case by (auto split: if_splits intro: exI [of _ 0])
qed

lemma rmatch_length:
  "(p', rs', caps') \<in> set (rmatch re (p, rs, caps)) \<Longrightarrow> length rs' \<le> length rs"
  using rmatch_suffix [of p' rs' caps' re p rs caps] by auto

lemma base64Pattern_nonempty:
  assumes "(p', rs', caps') \<in> set (rmatch base64Pattern (p, rs, caps))"
  shows "length rs' < length rs"
proof -
  let ?c = "CClass False base64_cls"
  from assms obtain p1 rs1 caps1 where
    a: "(p1, rs1, caps1) \<in> set (rmatch (Rep ?c 40 None) (p, rs, caps))" and
    b: "(p', rs', caps') \<in> set (rmatch (Cat (Rep (CClass False [ch CHR ''='']) 0 (Some 2)) Eps)
          (p1, rs1, caps1))"
    by (auto simp: base64Pattern_def cat_def)
  from a obtain k where k: "40 \<le> k" "k \<le> length (takeWhile (\<lambda>r. cmatch ?c (fst r)) rs)"
    and rs1: "rs1 = drop k rs"
    by (auto simp: Let_def)
  have "length (takeWhile (\<lambda>r. cmatch ?c (fst r)) rs) \<le> length rs"
    by (rule length_takeWhile_le)
  with k rs1 have "length rs1 < length rs" by simp
  moreover have "length rs' \<le> length rs1" using b by (rule rmatch_length)
  ultimately show ?thesis by simp
qed

lemma text_of_runes: "text_of (runes s) = s"
  by (induction s rule: runes.induct)
    (simp_all add: text_of_def Let_def del: DecodeRune.simps)

lemma runes_nonempty: "r \<in> set (runes s) \<Longrightarrow> snd r \<noteq> []"
  by (induction s arbitrary: r rule: runes.induct)
    (auto simp: Let_def simp del: DecodeRune.simps)

lemma text_of_append: "text_of (xs @ ys) = text_of xs @ text_of ys"
  by (simp add: text_of_def)

lemma find_all_range:
  "nonempty_matches re \<Longrightarrow> \<forall>r\<in>set rs. snd r \<noteq> [] \<Longrightarrow>
   (s, e, c) \<in> set (find_all re p rs pos prev) \<Longrightarrow>
   pos \<le> s \<and> s < e \<and> e \<le> pos + length (text_of rs)"
proof (induction re p rs pos prev rule: find_all.induct)
  case (1 re p rs pos prevEnd)
  note ne = "1.prems"(1)
  note all = "1.prems"(2)
  note inn = "1.prems"(3)
  show ?case
  proof (cases "rmatch re (p, rs, [])")
    case Nil
    show ?thesis
    proof (cases rs)
      case Nil
      with \<open>rmatch re (p, rs, []) = []\<close> inn show ?thesis
        by (subst (asm) find_all.simps) simp
    next
      case (Cons r rs0)
      with \<open>rmatch re (p, rs, []) = []\<close> inn
      have m: "(s, e, c) \<in> set (find_all re (Some (fst r)) rs0 (pos + length (snd r)) prevEnd)"
        by (subst (asm) find_all.simps) simp
      have "\<forall>r\<in>set rs0. snd r \<noteq> []" using all Cons by simp
      from "1.IH"(1) [OF \<open>rmatch re (p, rs, []) = []\<close> Cons ne this m]
      show ?thesis using Cons by (simp add: text_of_def)
    qed
  next
    case (Cons st sts)
    obtain p' rs' caps where st: "st = (p', rs', caps)" by (cases st) auto
    have mem: "(p', rs', caps) \<in> set (rmatch re (p, rs, []))" using Cons st by simp
    then have lt: "length rs' < length rs" using ne unfolding nonempty_matches_def by blast
    from rmatch_suffix [OF mem] obtain k where k: "rs' = drop k rs" by auto
    with lt have kk: "length rs - length rs' = min k (length rs)" "0 < k" by auto
    have tk: "take (length rs - length rs') rs = take k rs"
      using kk by (simp add: min_def)
    let ?e = "pos + length (text_of (take (length rs - length rs') rs))"
    have split: "text_of rs = text_of (take k rs) @ text_of rs'"
      using k text_of_append [of "take k rs" "drop k rs"] by simp
    have "rs \<noteq> []" using lt by auto
    then obtain r0 rs0 where rs: "rs = r0 # rs0" by (cases rs) auto
    have "snd r0 \<noteq> []" using all rs by simp
    then have pos_lt: "0 < length (text_of (take k rs))"
      using rs kk(2) by (cases k) (simp_all add: text_of_def)
    from inn Cons st lt
    have "(s, e, c) = (pos, ?e, caps) \<or> (s, e, c) \<in> set (find_all re p' rs' ?e (Some ?e))"
      by (subst (asm) find_all.simps) (simp add: Let_def)
    then show ?thesis
    proof
      assume "(s, e, c) = (pos, ?e, caps)"
      then show ?thesis using pos_lt split tk by simp
    next
      assume m: "(s, e, c) \<in> set (find_all re p' rs' ?e (Some ?e))"
      have "\<forall>r\<in>set rs'. snd r \<noteq> []"
        using all k by (auto dest: in_set_dropD)
      from "1.IH"(2) [OF Cons st [symmetric] refl lt refl ne this m]
      show ?thesis using split tk by simp
    qed
  qed
qed

lemma FindAllIndex_base64_range:
  assumes "(start, end) \<in> set (FindAllIndex base64Pattern data)"
  shows "start < end \<and> end \<le> length data"
proof -
  from assms obtain c where
    m: "(start, end, c) \<in> set (find_all base64Pattern None (runes data) 0 None)"
    by (auto simp: FindAllIndex_def)
  have "nonempty_matches base64Pattern"
    using base64Pattern_nonempty by (auto simp: nonempty_matches_def)
  from find_all_range [OF this _ m] runes_nonempty
  show ?thesis by (auto simp: text_of_runes)
qed

section \<open>Resolved offsets\<close>

lemma Index_from_range:
  "Index_from s sub i \<noteq> - 1 \<Longrightarrow>
     int i \<le> Index_from s sub i \<and> Index_from s sub i + int (length sub) \<le> int i + int (length s)"
proof (induction s arbitrary: i)
  case Nil
  then show ?case by (simp split: if_splits)
next
  case (Cons c cs)
  show ?case
  proof (cases "take (length sub) (c # cs) = sub")
    case True
    have "length (take (length sub) (c # cs)) = length sub"
      by (simp only: True)
    then have "min (length (c # cs)) (length sub) = length sub"
      by (simp only: length_take)
    then have "length sub \<le> length (c # cs)"
      by arith
    with True show ?thesis by simp
  next
    case False
    with Cons.prems have "Index_from cs sub (Suc i) \<noteq> - 1" by simp
    from Cons.IH [OF this] False show ?thesis by simp
  qed
qed

lemma Index_empty: "Index s [] = 0"
  by (cases s) (simp_all add: Index_def)

lemma Index_range:
  assumes "s \<noteq> []" "Index s sub \<noteq> - 1"
  shows "0 \<le> Index s sub \<and> Index s sub < int (length s)"
proof (cases "sub = []")
  case True
  with assms(1) show ?thesis by (simp add: Index_empty)
next
  case False
  then obtain x xs where "sub = x # xs" by (cases sub) auto
  with Index_from_range [of s sub 0] assms(2) show ?thesis
    by (simp add: Index_def)
qed

lemma resolveOffset_range:
  assumes "data \<noteq> []" "resolveOffset data whole v str \<noteq> - 1"
  shows "0 \<le> resolveOffset data whole v str \<and> resolveOffset data whole v str < int (length data)"
proof -
  have "\<exists>sub. resolveOffset data whole v str = Index data sub"
    by (auto simp: resolveOffset_def findStringOffset_def Let_def)
  then obtain sub where "resolveOffset data whole v str = Index data sub" ..
  with assms Index_range [of data sub] show ?thesis by simp
qed

lemma checkMatchEx_result:
  assumes "checkMatchEx a rule str data contextLen m = Inr rs" "r \<in> set rs"
  shows "\<exists>v. Offset r = resolveOffset data (m ! 0) v str \<and> MatchedValue r = v \<and>
     isValidCredential v \<and> RuleName r = Name rule \<and> Risk r = RiskLevel rule"
  using assms
  by (auto simp: checkMatchEx_def Let_def ebind_Inr split: if_splits)

lemma checkStringWithRulesEx_result:
  assumes "checkStringWithRulesEx a p str data contextLen = Inr results" "r \<in> set results"
  shows "\<exists>rule m v. rule \<in> set (rules p) \<and> m \<in> set (FindAllStringSubmatch (Pattern rule) str) \<and>
     Offset r = resolveOffset data (m ! 0) v str \<and> MatchedValue r = v \<and> isValidCredential v \<and>
     RuleName r = Name rule \<and> Risk r = RiskLevel rule"
proof -
  from econcat_map_Inr [OF assms [unfolded checkStringWithRulesEx_def]]
  obtain rule zs where rule: "rule \<in> set (rules p)" and
    zs: "econcat_map (checkMatchEx a rule str data contextLen)
           (FindAllStringSubmatch (Pattern rule) str) = Inr zs" and rz: "r \<in> set zs"
    by auto
  from econcat_map_Inr [OF zs rz] obtain m ws where
    m: "m \<in> set (FindAllStringSubmatch (Pattern rule) str)" and
    ws: "checkMatchEx a rule str data contextLen m = Inr ws" and rw: "r \<in> set ws"
    by auto
  from checkMatchEx_result [OF ws rw] rule m show ?thesis by blast
qed

lemma checkBase64MatchEx_result:
  assumes "checkBase64MatchEx a data contextLen start b64 decoded rule m = Inr rs" "r \<in> set rs"
  shows "RuleName r = Name rule @ base64_suffix \<and> Offset r = int start \<and>
     Risk r = RiskLevel rule \<and> isValidCredential (MatchedValue r)"
  using assms
  by (auto simp: checkBase64MatchEx_def Let_def ebind_Inr split: if_splits)

lemma checkBase64EncodedEx_result:
  assumes "checkBase64EncodedEx a p data contextLen = Inr results" "r \<in> set results"
  shows "\<exists>rule start end decoded. rule \<in> set (rules p) \<and>
     (start, end) \<in> set (FindAllIndex base64Pattern data) \<and>
     DecodeString (take (end - start) (drop start data)) = Some decoded \<and>
     RuleName r = Name rule @ base64_suffix \<and> Offset r = int start"
proof -
  from econcat_map_Inr [OF assms [unfolded checkBase64EncodedEx_def]]
  obtain run zs where run: "run \<in> set (FindAllIndex base64Pattern data)" and
    zs: "checkBase64RunEx a p data contextLen run = Inr zs" and rz: "r \<in> set zs"
    by auto
  obtain start "end" where se: "run = (start, end)" by (cases run)
  from rz zs se obtain decoded where
    d: "DecodeString (take (end - start) (drop start data)) = Some decoded" and
    e: "econcat_map (\<lambda>rule.
           econcat_map (checkBase64MatchEx a data contextLen start
               (take (end - start) (drop start data)) decoded rule)
             (FindAllStringSubmatch (Pattern rule) decoded))
         (rules p) = Inr zs"
    by (auto simp: checkBase64RunEx_def Let_def split: option.splits if_splits)
  from econcat_map_Inr [OF e rz] obtain rule ws where rule: "rule \<in> set (rules p)" and
    ws: "econcat_map (checkBase64MatchEx a data contextLen start
               (take (end - start) (drop start data)) decoded rule)
             (FindAllStringSubmatch (Pattern rule) decoded) = Inr ws" and rw: "r \<in> set ws"
    by auto
  from econcat_map_Inr [OF ws rw] obtain m us where
    us: "checkBase64MatchEx a data contextLen start
               (take (end - start) (drop start data)) decoded rule m = Inr us" and ru: "r \<in> set us"
    by auto
  from checkBase64MatchEx_result [OF us ru] rule run se d show ?thesis by blast
qed


text \<open>
  Claim C3. In a returned result every finding whose offset is not the sentinel \<open>-1\<close> has
  an offset \<open>o\<close> with \<open>0 \<le> o < len(data)\<close>, whatever pass it comes from, for every parser,
  buffer, keyword list and context length.
\<close>

theorem resolved_offset_in_buffer:
  assumes run: "ParseWithKeywords_findings a p data kws contextLen = Inr fs"
    and f: "(mt, r) \<in> set fs" and res: "Offset r \<noteq> - 1"
  shows "0 \<le> Offset r \<and> Offset r < int (length data)"
proof -
  let ?P = "\<lambda>r. Offset r \<noteq> - 1 \<longrightarrow> 0 \<le> Offset r \<and> Offset r < int (length data)"
  have "distinct (offsets fs) \<and>
     (\<exists>xs ys zs. fs = xs @ ys @ zs \<and> (\<forall>f\<in>set xs. fst f = mt_rule \<and> ?P (snd f))
        \<and> (\<forall>f\<in>set ys. fst f = mt_keyword \<and> ?P (snd f))
        \<and> (\<forall>f\<in>set zs. fst f = mt_base64 \<and> ?P (snd f)))"
  proof (rule findings_passes [OF run])
    fix str results
    assume len: "64 \<le> length data"
      and c: "checkStringWithRulesEx a p str data contextLen = Inr results"
    show "\<forall>r\<in>set results. ?P r"
    proof (intro ballI impI)
      fix r
      assume r: "r \<in> set results" and o: "Offset r \<noteq> - 1"
      from checkStringWithRulesEx_result [OF c r] obtain m v where
        "Offset r = resolveOffset data (m ! 0) v str"
        by auto
      moreover have "data \<noteq> []" using len by auto
      ultimately show "0 \<le> Offset r \<and> Offset r < int (length data)"
        using resolveOffset_range [of data "m ! 0" v str] o by simp
    qed
  next
    fix r :: BinaryMatchResult
    assume len: "64 \<le> length data" and o: "Offset r = findStringOffset data (MatchedValue r)"
    have "data \<noteq> []" using len by auto
    then show "?P r"
      using Index_range [of data "MatchedValue r"] o by (simp add: findStringOffset_def)
  next
    fix results
    assume c: "checkBase64EncodedEx a p data contextLen = Inr results"
    show "\<forall>r\<in>set results. ?P r"
    proof (intro ballI impI)
      fix r
      assume r: "r \<in> set results"
      from checkBase64EncodedEx_result [OF c r] obtain start "end" where
        "(start, end) \<in> set (FindAllIndex base64Pattern data)" "Offset r = int start"
        by auto
      then show "0 \<le> Offset r \<and> Offset r < int (length data)"
        using FindAllIndex_base64_range [of start "end" data] by simp
    qed
  qed
  then obtain xs ys zs where fs: "fs = xs @ ys @ zs" and
    "\<forall>f\<in>set xs. ?P (snd f)" "\<forall>f\<in>set ys. ?P (snd f)" "\<forall>f\<in>set zs. ?P (snd f)"
    by blast
  then have "\<forall>f\<in>set fs. ?P (snd f)" by auto
  with f res show ?thesis by force
qed

theorem resolved_offset_in_buffer_witness:
  "(0::int) \<le> 68 \<and> (68::int) < int (length scenario_buffer)"
  using resolved_offset_in_buffer [OF scenarioB_eval, of mt_rule
      "password_finding 68 (''MZ'' @ replicate 58 (CHR ''.'') @ ''@...PE..password=Secr3t!123'')"]
  by (simp add: password_finding_def)

section \<open>Findings of the base64 pass\<close>






section \<open>Context of a keyword finding with an unresolved offset\<close>

lemma keyword_utf16_eval:
  "ParseWithKeywords_findings GOARCH_amd64 NewBinaryParser keyword_utf16_buffer [''config''] 150 =
     Inr [(mt_keyword,
           \<lparr>RuleName = keyword_rule_name, RuleDesc = keyword_rule_desc ''config'',
            Risk = ''medium'', MatchedValue = ''server config'', Offset = - 1,
            Context = unlocatable\<rparr>)]"
  by code_simp

lemma unlocatable_bytes:
  "unlocatable = [CHR 0xE6, CHR 0x97, CHR 0xA0, CHR 0xE6, CHR 0xB3, CHR 0x95, CHR 0xE5, CHR 0xAE,
                  CHR 0x9A, CHR 0xE4, CHR 0xBD, CHR 0x8D]"
  by code_simp


text \<open>
  Claim C4. The rule pass replaces the context of an unresolved offset by the truncated
  candidate string; the keyword pass does not. For the header followed by
  \<open>server config\<close> in UTF-16LE and the keyword \<open>config\<close> the engine returns one keyword
  finding with the offset \<open>-1\<close> whose context is the twelve bytes of the literal for
  "cannot locate", none of them in \<open>[32,126]\<close>.
\<close>

theorem keyword_context_unlocatable:
  "ParseWithKeywords_findings GOARCH_amd64 NewBinaryParser keyword_utf16_buffer [''config''] 150 =
     Inr [(mt_keyword,
           \<lparr>RuleName = keyword_rule_name, RuleDesc = keyword_rule_desc ''config'',
            Risk = ''medium'', MatchedValue = ''server config'', Offset = - 1,
            Context = unlocatable\<rparr>)]
   \<and> list_all (\<lambda>b. \<not> printable b) unlocatable"
proof -
  have "list_all (\<lambda>b. \<not> printable b) unlocatable"
    by code_simp
  with keyword_utf16_eval show ?thesis by simp
qed

end
